theory Spec2Isabelle
  imports Complex_Main "HOL-Library.Stream"
begin

section \<open>Numbers, errors and the ambient random source\<close>

text \<open>
  JavaScript numbers (doubles, and the cells of a \<open>Float32Array\<close>) are modelled as
  mathematical reals: no rounding, no NaN and no infinities. A read that throws is an
  error value of the model. A read that JavaScript would turn into \<open>undefined\<close> and
  then into NaN is an error value too: the code goes on computing with NaN where the
  model stops, so what is proved of a step that returns covers the runs in which no NaN
  arises. The properties below are those that rounding does not touch: the lengths of
  the history lists, the frame of the setters, the defaults, the control flow of the
  metrics and the entries and edges of the generated matrices. What turns on the stored
  value of a phase or of the order parameter is outside this model.
  \<open>Math.random()\<close> is ambient state in the source; here it is the head of an explicit
  stream of draws that every stochastic function takes and returns.
\<close>

datatype error = TypeError | NotANumber

type_synonym rng = "real stream"

definition random :: "rng \<Rightarrow> real \<times> rng" where
  "random g = (shd g, stl g)"

text \<open>\<open>randomNormal(mean, stdDev)\<close>: Box-Muller on two draws.\<close>

definition randomNormal :: "real \<Rightarrow> real \<Rightarrow> rng \<Rightarrow> real \<times> rng" where
  "randomNormal mean stdDev g =
     (let (u1, g1) = random g;
          (u2, g2) = random g1;
          z0 = sqrt (- 2 * ln u1) * cos (2 * pi * u2)
      in (z0 * stdDev + mean, g2))"

text \<open>\<open>a[i][j]\<close> on an array of arrays: a missing row throws, a missing cell is
  \<open>undefined\<close>.\<close>

definition cell :: "real list list \<Rightarrow> nat \<Rightarrow> nat \<Rightarrow> error + real" where
  "cell a i j =
     (if i < length a
      then (if j < length (a ! i) then Inr (a ! i ! j) else Inl NotANumber)
      else Inl TypeError)"

section \<open>Phase wrapping\<close>

text \<open>
  The two loops that close both engines' \<open>step()\<close>:
  \<^verbatim>\<open>while (theta > Math.PI) theta -= 2 * Math.PI;\<close> and then
  \<^verbatim>\<open>while (theta < -Math.PI) theta += 2 * Math.PI;\<close>
\<close>

function wrapAbove :: "real \<Rightarrow> real" where
  "wrapAbove x = (if x > pi then wrapAbove (x - 2 * pi) else x)"
  by pat_completeness auto
termination
proof (relation "measure (\<lambda>x. nat \<lceil>(x - pi) / (2 * pi)\<rceil>)")
  show "wf (measure (\<lambda>x. nat \<lceil>(x - pi) / (2 * pi)\<rceil>))" by simp
next
  fix x :: real
  assume gt: "pi < x"
  have eq: "(x - 2 * pi - pi) / (2 * pi) = (x - pi) / (2 * pi) - 1"
    by (simp add: field_simps)
  have pos: "0 < (x - pi) / (2 * pi)" using gt by simp
  then have "1 \<le> \<lceil>(x - pi) / (2 * pi)\<rceil>" by linarith
  then show "(x - 2 * pi, x) \<in> measure (\<lambda>x. nat \<lceil>(x - pi) / (2 * pi)\<rceil>)"
    unfolding in_measure eq by simp
qed

function wrapBelow :: "real \<Rightarrow> real" where
  "wrapBelow x = (if x < - pi then wrapBelow (x + 2 * pi) else x)"
  by pat_completeness auto
termination
proof (relation "measure (\<lambda>x. nat \<lceil>(- x - pi) / (2 * pi)\<rceil>)")
  show "wf (measure (\<lambda>x. nat \<lceil>(- x - pi) / (2 * pi)\<rceil>))" by simp
next
  fix x :: real
  assume lt: "x < - pi"
  have eq: "(- (x + 2 * pi) - pi) / (2 * pi) = (- x - pi) / (2 * pi) - 1"
    by (simp add: field_simps)
  have pos: "0 < (- x - pi) / (2 * pi)" using lt by simp
  then have "1 \<le> \<lceil>(- x - pi) / (2 * pi)\<rceil>" by linarith
  then show "(x + 2 * pi, x) \<in> measure (\<lambda>x. nat \<lceil>(- x - pi) / (2 * pi)\<rceil>)"
    unfolding in_measure eq by simp
qed

declare wrapAbove.simps [simp del] wrapBelow.simps [simp del]

definition wrapPhase :: "real \<Rightarrow> real" where
  "wrapPhase x = wrapBelow (wrapAbove x)"

section \<open>The Kuramoto engine\<close>

record history =
  h_time :: "real list"
  h_orderParameter :: "real list"
  h_phases :: "real list list"

record KuramotoModel =
  N :: nat
  K :: real
  dt :: real
  noiseLevel :: real
  phaseLag :: real
  theta :: "real list"
  omega :: "real list"
  adjacency :: "real list list option"
  time :: real
  history :: history
  maxHistoryLength :: nat

definition emptyHistory :: history where
  "emptyHistory = \<lparr>h_time = [], h_orderParameter = [], h_phases = []\<rparr>"

text \<open>\<open>initialize()\<close>: per oscillator one draw for the phase, then two for the
  natural frequency; time and history are reset.\<close>

fun initLoop :: "nat \<Rightarrow> rng \<Rightarrow> (real list \<times> real list) \<times> rng" where
  "initLoop 0 g = (([], []), g)"
| "initLoop (Suc n) g =
     (let (u, g1) = random g;
          (w, g2) = randomNormal 0 1 g1;
          ((ths, oms), g3) = initLoop n g2
      in ((((u * 2 - 1) * pi) # ths, w # oms), g3))"

definition initialize :: "KuramotoModel \<Rightarrow> rng \<Rightarrow> KuramotoModel \<times> rng" where
  "initialize m g =
     (let ((ths, oms), g') = initLoop (N m) g
      in (m\<lparr>theta := ths, omega := oms, time := 0, history := emptyHistory\<rparr>, g'))"

text \<open>The constructor's \<open>config.X || default\<close>: an absent or falsy (zero) option gives
  the default.\<close>

record config =
  c_N :: "nat option"
  c_K :: "real option"
  c_dt :: "real option"
  c_noiseLevel :: "real option"
  c_phaseLag :: "real option"

definition orDefault :: "'a::zero option \<Rightarrow> 'a \<Rightarrow> 'a" where
  "orDefault v d = (case v of None \<Rightarrow> d | Some x \<Rightarrow> if x = 0 then d else x)"

definition constructor :: "config \<Rightarrow> rng \<Rightarrow> KuramotoModel \<times> rng" where
  "constructor c g =
     initialize
       \<lparr>N = orDefault (c_N c) 50, K = orDefault (c_K c) 2, dt = orDefault (c_dt c) 0.05,
        noiseLevel = orDefault (c_noiseLevel c) 0, phaseLag = orDefault (c_phaseLag c) 0,
        theta = replicate (orDefault (c_N c) 50) 0,
        omega = replicate (orDefault (c_N c) 50) 0,
        adjacency = None, time = 0, history = emptyHistory, maxHistoryLength = 10000\<rparr> g"

text \<open>\<open>computeDerivatives(theta)\<close>: the inner loop over \<open>j\<close> sums the coupling of
  oscillator \<open>i\<close>; the outer loop adds frequency, noise (two draws, only when
  \<open>noiseLevel > 0\<close>) and the coupling scaled by \<open>K / N\<close>.\<close>

definition S_ij :: "KuramotoModel \<Rightarrow> nat \<Rightarrow> nat \<Rightarrow> error + real" where
  "S_ij m i j = (case adjacency m of None \<Rightarrow> Inr 1 | Some a \<Rightarrow> cell a i j)"

fun couplingLoop :: "KuramotoModel \<Rightarrow> real list \<Rightarrow> nat \<Rightarrow> nat list \<Rightarrow> real \<Rightarrow> error + real" where
  "couplingLoop m th i [] c = Inr c"
| "couplingLoop m th i (j # js) c =
     (if i \<noteq> j
      then (case S_ij m i j of
              Inl e \<Rightarrow> Inl e
            | Inr s \<Rightarrow> couplingLoop m th i js (c + s * sin (th ! j - th ! i - phaseLag m)))
      else couplingLoop m th i js c)"

fun derivLoop :: "KuramotoModel \<Rightarrow> real list \<Rightarrow> nat list \<Rightarrow> rng \<Rightarrow> error + (real list \<times> rng)" where
  "derivLoop m th [] g = Inr ([], g)"
| "derivLoop m th (i # is) g =
     (let (d, g1) =
            (if noiseLevel m > 0
             then (let (z, g') = randomNormal 0 0.1 g in (omega m ! i + noiseLevel m * z, g'))
             else (omega m ! i, g))
      in case couplingLoop m th i [0..<N m] 0 of
           Inl e \<Rightarrow> Inl e
         | Inr coupling \<Rightarrow>
             (case derivLoop m th is g1 of
                Inl e \<Rightarrow> Inl e
              | Inr (rest, g2) \<Rightarrow> Inr ((d + (K m / real (N m)) * coupling) # rest, g2)))"

definition computeDerivatives :: "KuramotoModel \<Rightarrow> real list \<Rightarrow> rng \<Rightarrow> error + (real list \<times> rng)" where
  "computeDerivatives m th g = derivLoop m th [0..<N m] g"

text \<open>\<open>calculateOrderParameter()\<close>.\<close>

definition calculateOrderParameter :: "KuramotoModel \<Rightarrow> real" where
  "calculateOrderParameter m =
     (let sumReal = foldl (\<lambda>s i. s + cos (theta m ! i)) 0 [0..<N m] / real (N m);
          sumImag = foldl (\<lambda>s i. s + sin (theta m ! i)) 0 [0..<N m] / real (N m)
      in sqrt (sumReal * sumReal + sumImag * sumImag))"

text \<open>\<open>recordHistory()\<close>: three pushes and nothing else; \<open>maxHistoryLength\<close> is not
  read.\<close>

definition recordHistory :: "KuramotoModel \<Rightarrow> KuramotoModel" where
  "recordHistory m =
     m\<lparr>history :=
         \<lparr>h_time = h_time (history m) @ [time m],
          h_orderParameter = h_orderParameter (history m) @ [calculateOrderParameter m],
          h_phases = h_phases (history m) @ [theta m]\<rparr>\<rparr>"

text \<open>\<open>step()\<close>: four derivative evaluations, the weighted sum, the wrap, the clock and
  the history. An error in a derivative evaluation leaves the model as it was.\<close>

definition stage :: "nat \<Rightarrow> real list \<Rightarrow> real \<Rightarrow> real list \<Rightarrow> real list" where
  "stage n theta0 c k = map (\<lambda>i. theta0 ! i + c * k ! i) [0..<n]"

definition step :: "KuramotoModel \<Rightarrow> rng \<Rightarrow> error + (KuramotoModel \<times> rng)" where
  "step m g =
     (let theta0 = theta m in
      case computeDerivatives m theta0 g of Inl e \<Rightarrow> Inl e | Inr (k1, g1) \<Rightarrow>
      case computeDerivatives m (stage (N m) theta0 (0.5 * dt m) k1) g1 of Inl e \<Rightarrow> Inl e | Inr (k2, g2) \<Rightarrow>
      case computeDerivatives m (stage (N m) theta0 (0.5 * dt m) k2) g2 of Inl e \<Rightarrow> Inl e | Inr (k3, g3) \<Rightarrow>
      case computeDerivatives m (stage (N m) theta0 (dt m) k3) g3 of Inl e \<Rightarrow> Inl e | Inr (k4, g4) \<Rightarrow>
      Inr (recordHistory
             (m\<lparr>theta :=
                  map (\<lambda>i. wrapPhase (theta0 ! i + (dt m / 6) * (k1 ! i + 2 * k2 ! i + 2 * k3 ! i + k4 ! i)))
                    [0..<N m],
                time := time m + dt m\<rparr>),
           g4))"

fun steps :: "nat \<Rightarrow> KuramotoModel \<Rightarrow> rng \<Rightarrow> error + (KuramotoModel \<times> rng)" where
  "steps 0 m g = Inr (m, g)"
| "steps (Suc n) m g = (case step m g of Inl e \<Rightarrow> Inl e | Inr (m', g') \<Rightarrow> steps n m' g')"

text \<open>\<open>updateParameters(params)\<close> and \<open>setNetwork(adjacencyMatrix)\<close>. A key that is
  absent from \<open>params\<close> is \<open>None\<close>.\<close>

record params =
  p_K :: "real option"
  p_noiseLevel :: "real option"
  p_phaseLag :: "real option"
  p_dt :: "real option"
  p_N :: "nat option"

definition updateParameters :: "KuramotoModel \<Rightarrow> params \<Rightarrow> rng \<Rightarrow> KuramotoModel \<times> rng" where
  "updateParameters m p g =
     (let m1 = (case p_K p of None \<Rightarrow> m | Some v \<Rightarrow> m\<lparr>K := v\<rparr>);
          m2 = (case p_noiseLevel p of None \<Rightarrow> m1 | Some v \<Rightarrow> m1\<lparr>noiseLevel := v\<rparr>);
          m3 = (case p_phaseLag p of None \<Rightarrow> m2 | Some v \<Rightarrow> m2\<lparr>phaseLag := v\<rparr>);
          m4 = (case p_dt p of None \<Rightarrow> m3 | Some v \<Rightarrow> m3\<lparr>dt := v\<rparr>)
      in case p_N p of
           None \<Rightarrow> (m4, g)
         | Some n \<Rightarrow>
             if n \<noteq> N m4
             then initialize (m4\<lparr>N := n, theta := replicate n 0, omega := replicate n 0\<rparr>) g
             else (m4, g))"

definition setNetwork :: "KuramotoModel \<Rightarrow> real list list option \<Rightarrow> KuramotoModel" where
  "setNetwork m adjacencyMatrix = m\<lparr>adjacency := adjacencyMatrix\<rparr>"

section \<open>Run metrics\<close>

text \<open>
  The argument of \<open>calculateRunMetrics\<close> may be missing altogether, and so may each of
  its fields. \<open>parseFloat(v.toFixed(d))\<close> rounds to \<open>d\<close> decimals, ties away from zero.
\<close>

record runHistory =
  rh_time :: "real list option"
  rh_orderParameter :: "real list option"

definition toFixed :: "nat \<Rightarrow> real \<Rightarrow> real" where
  "toFixed d v =
     (if v < 0 then - (of_int \<lfloor>(- v) * 10 ^ d + 1 / 2\<rfloor> / 10 ^ d)
      else of_int \<lfloor>v * 10 ^ d + 1 / 2\<rfloor> / 10 ^ d)"

text \<open>The inner loop of \<open>calculateSettlingTime\<close>: does \<open>r\<close> stay within the tolerance
  band on the window that starts at \<open>i\<close>? A window index past the end reads
  \<open>undefined\<close>, whose comparison is false, so it does not unsettle the window.\<close>

definition settled :: "real list \<Rightarrow> real \<Rightarrow> real \<Rightarrow> nat \<Rightarrow> nat \<Rightarrow> bool" where
  "settled r finalR tolerance i sustainPeriod =
     list_all (\<lambda>j. \<not> (j < length r \<and> \<bar>r ! j - finalR\<bar> > tolerance)) [i..<i + sustainPeriod]"

fun settlingLoop :: "real list \<Rightarrow> real list \<Rightarrow> real \<Rightarrow> real \<Rightarrow> nat \<Rightarrow> nat list \<Rightarrow> error + real option" where
  "settlingLoop ts r finalR threshold sustainPeriod [] = Inr None"
| "settlingLoop ts r finalR threshold sustainPeriod (i # is) =
     (if r ! i \<ge> threshold \<and> settled r finalR (0.05 * finalR) i sustainPeriod
      then (if i < length ts then Inr (Some (toFixed 2 (ts ! i))) else Inl TypeError)
      else settlingLoop ts r finalR threshold sustainPeriod is)"

definition calculateSettlingTime :: "real list option \<Rightarrow> real list \<Rightarrow> real \<Rightarrow> error + real option" where
  "calculateSettlingTime ts r finalR =
     (case ts of
        None \<Rightarrow> Inl TypeError
      | Some t \<Rightarrow>
          if length t = 0 then Inr None
          else (let threshold = 0.9 * finalR;
                    sustainPeriod = min 50 (nat \<lfloor>real (length r) * 0.1\<rfloor>)
                in settlingLoop t r finalR threshold sustainPeriod [0..<length r - sustainPeriod]))"

definition checkConvergence :: "real list \<Rightarrow> real \<Rightarrow> real \<Rightarrow> bool" where
  "checkConvergence r finalR stdR =
     (if length r < 100 then False
      else (let checkStart = nat \<lfloor>real (length r) * 0.8\<rfloor>;
                recentR = drop checkStart r;
                recentMean = foldl (\<lambda>sum val. sum + val) 0 recentR / real (length recentR);
                recentVar = foldl (\<lambda>sum val. sum + (val - recentMean) ^ 2) 0 recentR / real (length recentR);
                recentStd = sqrt recentVar
            in recentStd < 0.05))"

definition detectOscillation :: "real list \<Rightarrow> bool" where
  "detectOscillation r =
     (if length r < 100 then False
      else (let checkStart = nat \<lfloor>real (length r) * 0.5\<rfloor>;
                recentR = drop checkStart r;
                crossings = length (filter (\<lambda>i. (recentR ! i - recentR ! (i - 1)) * (recentR ! (i + 1) - recentR ! i) < 0)
                                      [1..<length recentR - 1]);
                crossingRate = real crossings / real (length recentR)
            in crossingRate > 0.05))"

record runMetrics =
  finalR :: real
  meanR :: real
  stdR :: real
  minR :: real
  maxR :: real
  settlingTime :: "real option"
  converged :: bool
  oscillating :: bool

definition emptyMetrics :: runMetrics where
  "emptyMetrics = \<lparr>finalR = 0, meanR = 0, stdR = 0, minR = 0, maxR = 0, settlingTime = None,
                    converged = False, oscillating = False\<rparr>"

definition calculateRunMetrics :: "runHistory option \<Rightarrow> error + runMetrics" where
  "calculateRunMetrics hist =
     (case hist of
        None \<Rightarrow> Inr emptyMetrics
      | Some h \<Rightarrow>
          (case rh_orderParameter h of
             None \<Rightarrow> Inr emptyMetrics
           | Some r \<Rightarrow>
               if length r = 0 then Inr emptyMetrics
               else (let n = length r;
                         finalR = r ! (n - 1);
                         meanR = foldl (\<lambda>sum val. sum + val) 0 r / real n;
                         variance = foldl (\<lambda>sum val. sum + (val - meanR) ^ 2) 0 r / real n;
                         stdR = sqrt variance;
                         minR = fold min (tl r) (hd r);
                         maxR = fold max (tl r) (hd r)
                     in case calculateSettlingTime (rh_time h) r finalR of
                          Inl e \<Rightarrow> Inl e
                        | Inr st \<Rightarrow>
                            Inr \<lparr>finalR = toFixed 4 finalR, meanR = toFixed 4 meanR,
                                 stdR = toFixed 4 stdR, minR = toFixed 4 minR, maxR = toFixed 4 maxR,
                                 settlingTime = st,
                                 converged = checkConvergence r finalR stdR,
                                 oscillating = detectOscillation r\<rparr>)))"

section \<open>The attention field engine\<close>

text \<open>
  The methods of \<open>AttentionFieldModel\<close> that share a name with a method of
  \<open>KuramotoModel\<close> carry the prefix \<open>af_\<close>, and so do the fields the two classes share.
  An object id is either the caller's string or the base-36 rendering of a draw; the
  opaque \<open>networkParams\<close> object, which the engine never reads, is left out.
\<close>

datatype objectId = Given string | Generated real

record stimulusObject =
  o_id :: objectId
  o_x :: real
  o_y :: real
  o_vx :: real
  o_vy :: real
  o_radius :: real
  o_intensity :: real
  o_features :: "real list"

record objectConfig =
  i_id :: "string option"
  i_x :: "real option"
  i_y :: "real option"
  i_vx :: "real option"
  i_vy :: "real option"
  i_radius :: "real option"
  i_intensity :: "real option"
  i_features :: "real list option"

record trackedObject =
  t_id :: objectId
  t_attention :: real
  t_position :: "real \<times> real"

record fieldHistory =
  fh_time :: "real list"
  fh_attentionMap :: "real list list"
  fh_trackedObjects :: "trackedObject list list"

record AttentionFieldModel =
  gridSize :: nat
  af_N :: nat
  af_K :: real
  af_dt :: real
  af_noiseLevel :: real
  af_phaseLag :: real
  K_stim :: real
  K_feat :: real
  spatialRange :: real
  spatialDecay :: real
  networkType :: string
  af_adjacency :: "real list list option"
  numFeatures :: nat
  af_theta :: "real list"
  af_omega :: "real list"
  stimulus :: "real list"
  features :: "real list list"
  stimulusObjects :: "stimulusObject list"
  af_time :: real
  af_history :: fieldHistory
  spatialWeights :: "real list"

definition emptyFieldHistory :: fieldHistory where
  "emptyFieldHistory = \<lparr>fh_time = [], fh_attentionMap = [], fh_trackedObjects = []\<rparr>"

text \<open>\<open>computeSpatialWeights()\<close>: the four nested loops write the cells of the flat
  array in increasing order, so the array is the concatenation in loop order.\<close>

definition spatialWeight :: "AttentionFieldModel \<Rightarrow> nat \<Rightarrow> nat \<Rightarrow> nat \<Rightarrow> nat \<Rightarrow> real" where
  "spatialWeight m i j k l =
     (if i * gridSize m + j = k * gridSize m + l then 0
      else (let dx = real i - real k;
                dy = real j - real l;
                dist = sqrt (dx * dx + dy * dy)
            in if dist \<le> spatialRange m then exp (- spatialDecay m * dist) else 0))"

definition computeSpatialWeights :: "AttentionFieldModel \<Rightarrow> real list" where
  "computeSpatialWeights m =
     concat (map (\<lambda>i. concat (map (\<lambda>j. concat (map (\<lambda>k. map (\<lambda>l. spatialWeight m i j k l)
       [0..<gridSize m]) [0..<gridSize m])) [0..<gridSize m])) [0..<gridSize m])"

fun af_initLoop :: "nat \<Rightarrow> rng \<Rightarrow> (real list \<times> real list) \<times> rng" where
  "af_initLoop 0 g = (([], []), g)"
| "af_initLoop (Suc n) g =
     (let (u, g1) = random g;
          (w, g2) = randomNormal 0 0.5 g1;
          ((ths, oms), g3) = af_initLoop n g2
      in ((((u * 2 - 1) * pi) # ths, w # oms), g3))"

definition af_initialize :: "AttentionFieldModel \<Rightarrow> rng \<Rightarrow> AttentionFieldModel \<times> rng" where
  "af_initialize m g =
     (let ((ths, oms), g') = af_initLoop (af_N m) g
      in (m\<lparr>af_theta := ths, af_omega := oms, stimulus := replicate (af_N m) 0,
            features := replicate (af_N m) (replicate (numFeatures m) 0.5),
            af_time := 0, af_history := emptyFieldHistory\<rparr>, g'))"

record fieldConfig =
  fc_gridSize :: "nat option"
  fc_K :: "real option"
  fc_dt :: "real option"
  fc_noiseLevel :: "real option"
  fc_phaseLag :: "real option"
  fc_K_stim :: "real option"
  fc_K_feat :: "real option"
  fc_spatialRange :: "real option"
  fc_spatialDecay :: "real option"
  fc_networkType :: "string option"
  fc_numFeatures :: "nat option"

definition af_constructor :: "fieldConfig \<Rightarrow> rng \<Rightarrow> AttentionFieldModel \<times> rng" where
  "af_constructor c g =
     (let gs = orDefault (fc_gridSize c) 32;
          n = gs * gs;
          nf = orDefault (fc_numFeatures c) 3;
          m = \<lparr>gridSize = gs, af_N = n, af_K = orDefault (fc_K c) 2, af_dt = orDefault (fc_dt c) 0.05,
               af_noiseLevel = orDefault (fc_noiseLevel c) 0, af_phaseLag = orDefault (fc_phaseLag c) 0,
               K_stim = orDefault (fc_K_stim c) 1.5, K_feat = orDefault (fc_K_feat c) 2,
               spatialRange = orDefault (fc_spatialRange c) 4,
               spatialDecay = orDefault (fc_spatialDecay c) 0.3,
               networkType = (case fc_networkType c of None \<Rightarrow> ''spatial''
                               | Some t \<Rightarrow> if t = [] then ''spatial'' else t),
               af_adjacency = None, numFeatures = nf,
               af_theta = replicate n 0, af_omega = replicate n 0, stimulus = replicate n 0,
               features = replicate n (replicate nf 0), stimulusObjects = [],
               af_time = 0, af_history = emptyFieldHistory, spatialWeights = []\<rparr>
      in af_initialize (m\<lparr>spatialWeights := computeSpatialWeights m\<rparr>) g)"

text \<open>\<open>addStimulusObject(obj)\<close>: every field is \<open>obj.field || default\<close>, so an absent
  field and a falsy one (zero, the empty string) both take the default. The id draws
  from the random source only when it is needed; an array is never falsy.\<close>

definition addStimulusObject :: "AttentionFieldModel \<Rightarrow> objectConfig \<Rightarrow> rng \<Rightarrow> AttentionFieldModel \<times> rng" where
  "addStimulusObject m obj g =
     (let (oid, g') =
            (case i_id obj of
               None \<Rightarrow> (let (u, g1) = random g in (Generated u, g1))
             | Some s \<Rightarrow> if s = [] then (let (u, g1) = random g in (Generated u, g1)) else (Given s, g))
      in (m\<lparr>stimulusObjects := stimulusObjects m @
               [\<lparr>o_id = oid,
                 o_x = orDefault (i_x obj) (real (gridSize m) / 2),
                 o_y = orDefault (i_y obj) (real (gridSize m) / 2),
                 o_vx = orDefault (i_vx obj) 0,
                 o_vy = orDefault (i_vy obj) 0,
                 o_radius = orDefault (i_radius obj) 3,
                 o_intensity = orDefault (i_intensity obj) 1.0,
                 o_features = (case i_features obj of
                                 None \<Rightarrow> replicate (numFeatures m) 0.5
                               | Some f \<Rightarrow> f)\<rparr>]\<rparr>, g'))"

text \<open>\<open>updateStimulusField()\<close>: both fields are cleared; then each object, in order, is
  moved, bounced off the padded boundary and projected onto the grid. A feature vector
  shorter than \<open>numFeatures\<close> reads \<open>undefined\<close> in the blend.\<close>

definition moveObject :: "AttentionFieldModel \<Rightarrow> stimulusObject \<Rightarrow> stimulusObject" where
  "moveObject m obj =
     (let padding = 2;
          x1 = o_x obj + o_vx obj * af_dt m;
          y1 = o_y obj + o_vy obj * af_dt m;
          hitX = (x1 < padding \<or> x1 \<ge> real (gridSize m) - padding);
          hitY = (y1 < padding \<or> y1 \<ge> real (gridSize m) - padding)
      in obj\<lparr>o_x := (if hitX then max padding (min (real (gridSize m) - padding) x1) else x1),
              o_vx := (if hitX then o_vx obj * (- 0.95) else o_vx obj),
              o_y := (if hitY then max padding (min (real (gridSize m) - padding) y1) else y1),
              o_vy := (if hitY then o_vy obj * (- 0.95) else o_vy obj)\<rparr>)"

fun blend :: "real list \<Rightarrow> real list \<Rightarrow> real \<Rightarrow> nat list \<Rightarrow> error + real list" where
  "blend cellF objF activation [] = Inr cellF"
| "blend cellF objF activation (f # fs) =
     (if f < length objF
      then blend (cellF[f := cellF ! f * (1 - activation) + objF ! f * activation]) objF activation fs
      else Inl NotANumber)"

definition projectCell ::
  "AttentionFieldModel \<Rightarrow> stimulusObject \<Rightarrow> nat \<times> nat \<Rightarrow> real list \<times> real list list
     \<Rightarrow> error + (real list \<times> real list list)" where
  "projectCell m obj ij sf =
     (let (i, j) = ij;
          (stim, feats) = sf;
          dx = real i - o_x obj;
          dy = real j - o_y obj;
          dist = sqrt (dx * dx + dy * dy)
      in if dist \<le> o_radius obj * 2
         then (let idx = i * gridSize m + j;
                   activation = o_intensity obj * exp (- 0.5 * (dist / o_radius obj) ^ 2);
                   stim' = stim[idx := max (stim ! idx) activation]
               in if activation > 0.1
                  then (case blend (feats ! idx) (o_features obj) activation [0..<numFeatures m] of
                          Inl e \<Rightarrow> Inl e
                        | Inr c \<Rightarrow> Inr (stim', feats[idx := c]))
                  else Inr (stim', feats))
         else Inr sf)"

fun projectLoop ::
  "AttentionFieldModel \<Rightarrow> stimulusObject \<Rightarrow> (nat \<times> nat) list \<Rightarrow> real list \<times> real list list
     \<Rightarrow> error + (real list \<times> real list list)" where
  "projectLoop m obj [] sf = Inr sf"
| "projectLoop m obj (ij # rest) sf =
     (case projectCell m obj ij sf of Inl e \<Rightarrow> Inl e | Inr sf' \<Rightarrow> projectLoop m obj rest sf')"

fun objectsLoop ::
  "AttentionFieldModel \<Rightarrow> stimulusObject list \<Rightarrow> real list \<times> real list list
     \<Rightarrow> error + (stimulusObject list \<times> real list \<times> real list list)" where
  "objectsLoop m [] sf = Inr ([], sf)"
| "objectsLoop m (obj # objs) sf =
     (let obj' = moveObject m obj
      in case projectLoop m obj' (List.product [0..<gridSize m] [0..<gridSize m]) sf of
           Inl e \<Rightarrow> Inl e
         | Inr sf' \<Rightarrow>
             (case objectsLoop m objs sf' of
                Inl e \<Rightarrow> Inl e
              | Inr (objs', sf'') \<Rightarrow> Inr (obj' # objs', sf'')))"

definition updateStimulusField :: "AttentionFieldModel \<Rightarrow> error + AttentionFieldModel" where
  "updateStimulusField m =
     (case objectsLoop m (stimulusObjects m)
             (replicate (length (stimulus m)) 0, map (\<lambda>row. replicate (length row) 0.5) (features m)) of
        Inl e \<Rightarrow> Inl e
      | Inr (objs, stim, feats) \<Rightarrow>
          Inr (m\<lparr>stimulusObjects := objs, stimulus := stim, features := feats\<rparr>))"

text \<open>\<open>computeFeatureSimilarity(idx1, idx2)\<close>.\<close>

definition computeFeatureSimilarity :: "AttentionFieldModel \<Rightarrow> nat \<Rightarrow> nat \<Rightarrow> real" where
  "computeFeatureSimilarity m idx1 idx2 =
     (let fs = [0..<numFeatures m];
          dotProduct = foldl (\<lambda>s f. s + features m ! idx1 ! f * (features m ! idx2 ! f)) 0 fs;
          mag1 = foldl (\<lambda>s f. s + features m ! idx1 ! f * (features m ! idx1 ! f)) 0 fs;
          mag2 = foldl (\<lambda>s f. s + features m ! idx2 ! f * (features m ! idx2 ! f)) 0 fs
      in if mag1 = 0 \<or> mag2 = 0 then 0 else dotProduct / (sqrt mag1 * sqrt mag2))"

text \<open>The coupling weight of a pair of cells: the adjacency override when it is set
  (a missing row throws; a missing cell is \<open>undefined\<close>, which fails \<open>weight > 0\<close>),
  the spatial weights otherwise.\<close>

definition weight :: "AttentionFieldModel \<Rightarrow> nat \<Rightarrow> nat \<Rightarrow> error + real option" where
  "weight m idx jdx =
     (case af_adjacency m of
        Some a \<Rightarrow>
          (let i = idx div gridSize m; j = idx mod gridSize m;
               k = jdx div gridSize m; l = jdx mod gridSize m;
               row = i * gridSize m + j; col = k * gridSize m + l
           in if row < length a
              then Inr (if col < length (a ! row) then Some (a ! row ! col) else None)
              else Inl TypeError)
      | None \<Rightarrow> Inr (Some (spatialWeights m ! (idx * af_N m + jdx))))"

fun stimulusLoop :: "AttentionFieldModel \<Rightarrow> real list \<Rightarrow> nat \<Rightarrow> nat list \<Rightarrow> real \<Rightarrow> error + real" where
  "stimulusLoop m th idx [] c = Inr c"
| "stimulusLoop m th idx (jdx # js) c =
     (if idx = jdx then stimulusLoop m th idx js c
      else (case weight m idx jdx of
              Inl e \<Rightarrow> Inl e
            | Inr None \<Rightarrow> stimulusLoop m th idx js c
            | Inr (Some w) \<Rightarrow>
                if w > 0
                then (let stimFactor = (stimulus m ! idx + stimulus m ! jdx) / 2
                      in stimulusLoop m th idx js
                           (c + w * stimFactor * sin (th ! jdx - th ! idx - af_phaseLag m)))
                else stimulusLoop m th idx js c))"

fun featureLoop :: "AttentionFieldModel \<Rightarrow> real list \<Rightarrow> nat \<Rightarrow> nat list \<Rightarrow> real \<Rightarrow> error + real" where
  "featureLoop m th idx [] c = Inr c"
| "featureLoop m th idx (jdx # js) c =
     (if idx = jdx then featureLoop m th idx js c
      else (case weight m idx jdx of
              Inl e \<Rightarrow> Inl e
            | Inr None \<Rightarrow> featureLoop m th idx js c
            | Inr (Some w) \<Rightarrow>
                if w > 0
                then (let featureSim = computeFeatureSimilarity m idx jdx
                      in if featureSim > 0.5
                         then featureLoop m th idx js
                                (c + w * featureSim * sin (th ! jdx - th ! idx - af_phaseLag m))
                         else featureLoop m th idx js c)
                else featureLoop m th idx js c))"

fun af_derivLoop :: "AttentionFieldModel \<Rightarrow> real list \<Rightarrow> nat list \<Rightarrow> rng \<Rightarrow> error + (real list \<times> rng)" where
  "af_derivLoop m th [] g = Inr ([], g)"
| "af_derivLoop m th (idx # is) g =
     (let (d, g1) =
            (if af_noiseLevel m > 0
             then (let (z, g') = randomNormal 0 0.1 g in (af_omega m ! idx + af_noiseLevel m * z, g'))
             else (af_omega m ! idx, g))
      in case stimulusLoop m th idx [0..<af_N m] 0 of
           Inl e \<Rightarrow> Inl e
         | Inr stimulusCoupling \<Rightarrow>
             (case featureLoop m th idx [0..<af_N m] 0 of
                Inl e \<Rightarrow> Inl e
              | Inr featureCoupling \<Rightarrow>
                  (case af_derivLoop m th is g1 of
                     Inl e \<Rightarrow> Inl e
                   | Inr (rest, g2) \<Rightarrow>
                       Inr ((d + (af_K m / real (af_N m))
                                 * (K_stim m * stimulusCoupling + K_feat m * featureCoupling)) # rest,
                            g2))))"

definition af_computeDerivatives :: "AttentionFieldModel \<Rightarrow> real list \<Rightarrow> rng \<Rightarrow> error + (real list \<times> rng)" where
  "af_computeDerivatives m th g = af_derivLoop m th [0..<af_N m] g"

text \<open>\<open>calculateAttentionMap()\<close>: the local order parameter over the cells with a
  positive spatial weight; a cell with no such neighbour keeps the array's initial 0.\<close>

definition calculateAttentionMap :: "AttentionFieldModel \<Rightarrow> real list" where
  "calculateAttentionMap m =
     map (\<lambda>idx.
            (let nb = filter (\<lambda>jdx. spatialWeights m ! (idx * af_N m + jdx) > 0) [0..<af_N m];
                 count = length nb;
                 sumReal = foldl (\<lambda>s jdx. s + cos (af_theta m ! jdx)) 0 nb / real count;
                 sumImag = foldl (\<lambda>s jdx. s + sin (af_theta m ! jdx)) 0 nb / real count
             in if count > 0 then sqrt (sumReal * sumReal + sumImag * sumImag) else 0))
         [0..<af_N m]"

text \<open>\<open>detectTrackedObjects()\<close>: the 3 by 3 neighbourhood is indexed with JavaScript's
  remainder, which keeps the sign of the dividend. A sample outside the map is
  \<open>undefined\<close>; the average is then NaN, the test \<open>avgAttention > 0.6\<close> fails and the
  object is not reported.\<close>

definition jsrem :: "int \<Rightarrow> int \<Rightarrow> int" where
  "jsrem a b = sgn a * (\<bar>a\<bar> mod \<bar>b\<bar>)"

definition sample :: "AttentionFieldModel \<Rightarrow> real list \<Rightarrow> stimulusObject \<Rightarrow> int \<times> int \<Rightarrow> real option" where
  "sample m attentionMap obj d =
     (let (dx, dy) = d;
          cx = \<lfloor>o_x obj\<rfloor>;
          cy = \<lfloor>o_y obj\<rfloor>;
          i = jsrem (cx + dx + int (gridSize m)) (int (gridSize m));
          j = jsrem (cy + dy + int (gridSize m)) (int (gridSize m));
          idx = i * int (gridSize m) + j
      in if gridSize m \<noteq> 0 \<and> 0 \<le> idx \<and> idx < int (length attentionMap)
         then Some (attentionMap ! nat idx) else None)"

fun sumSamples :: "real option list \<Rightarrow> real option" where
  "sumSamples [] = Some 0"
| "sumSamples (None # rest) = None"
| "sumSamples (Some v # rest) = (case sumSamples rest of None \<Rightarrow> None | Some t \<Rightarrow> Some (v + t))"

definition detectTrackedObjects :: "AttentionFieldModel \<Rightarrow> trackedObject list" where
  "detectTrackedObjects m =
     (let attentionMap = calculateAttentionMap m
      in concat (map (\<lambda>obj.
           (case sumSamples (map (sample m attentionMap obj) (List.product [- 1, 0, 1] [- 1, 0, 1])) of
              None \<Rightarrow> []
            | Some totalAttention \<Rightarrow>
                (let avgAttention = totalAttention / 9
                 in if avgAttention > 0.6
                    then [\<lparr>t_id = o_id obj, t_attention = avgAttention, t_position = (o_x obj, o_y obj)\<rparr>]
                    else [])))
         (stimulusObjects m)))"

text \<open>\<open>recordHistory()\<close>: three pushes, then one shift of each list when the time list
  has grown past 500.\<close>

definition af_recordHistory :: "AttentionFieldModel \<Rightarrow> AttentionFieldModel" where
  "af_recordHistory m =
     (let attentionMap = calculateAttentionMap m;
          tracked = detectTrackedObjects m;
          h = \<lparr>fh_time = fh_time (af_history m) @ [af_time m],
               fh_attentionMap = fh_attentionMap (af_history m) @ [attentionMap],
               fh_trackedObjects = fh_trackedObjects (af_history m) @ [tracked]\<rparr>
      in if length (fh_time h) > 500
         then m\<lparr>af_history := \<lparr>fh_time = tl (fh_time h), fh_attentionMap = tl (fh_attentionMap h),
                                fh_trackedObjects = tl (fh_trackedObjects h)\<rparr>\<rparr>
         else m\<lparr>af_history := h\<rparr>)"

text \<open>\<open>step()\<close>: the stimulus field is updated once, before the four derivative
  evaluations.\<close>

definition af_step :: "AttentionFieldModel \<Rightarrow> rng \<Rightarrow> error + (AttentionFieldModel \<times> rng)" where
  "af_step m0 g =
     (case updateStimulusField m0 of Inl e \<Rightarrow> Inl e | Inr m \<Rightarrow>
      let theta0 = af_theta m in
      case af_computeDerivatives m theta0 g of Inl e \<Rightarrow> Inl e | Inr (k1, g1) \<Rightarrow>
      case af_computeDerivatives m (stage (af_N m) theta0 (0.5 * af_dt m) k1) g1 of Inl e \<Rightarrow> Inl e | Inr (k2, g2) \<Rightarrow>
      case af_computeDerivatives m (stage (af_N m) theta0 (0.5 * af_dt m) k2) g2 of Inl e \<Rightarrow> Inl e | Inr (k3, g3) \<Rightarrow>
      case af_computeDerivatives m (stage (af_N m) theta0 (af_dt m) k3) g3 of Inl e \<Rightarrow> Inl e | Inr (k4, g4) \<Rightarrow>
      Inr (af_recordHistory
             (m\<lparr>af_theta :=
                  map (\<lambda>i. wrapPhase (theta0 ! i + (af_dt m / 6) * (k1 ! i + 2 * k2 ! i + 2 * k3 ! i + k4 ! i)))
                    [0..<af_N m],
                af_time := af_time m + af_dt m\<rparr>),
           g4))"

fun af_steps :: "nat \<Rightarrow> AttentionFieldModel \<Rightarrow> rng \<Rightarrow> error + (AttentionFieldModel \<times> rng)" where
  "af_steps 0 m g = Inr (m, g)"
| "af_steps (Suc n) m g = (case af_step m g of Inl e \<Rightarrow> Inl e | Inr (m', g') \<Rightarrow> af_steps n m' g')"

section \<open>Network topology generators\<close>

text \<open>
  An adjacency matrix is an array of rows; \<open>adjacency[i][j] = v\<close> is \<open>set2\<close>. Each
  generator returns the matrix, the edge list \<open>getAllEdges\<close> reads off its upper
  triangle, and its type label (the echoed parameters are left out).
\<close>

record network =
  nw_adjacency :: "real list list"
  nw_edges :: "(nat \<times> nat) list"
  nw_type :: string

definition zeros :: "nat \<Rightarrow> real list list" where
  "zeros n = replicate n (replicate n 0)"

definition set2 :: "real list list \<Rightarrow> nat \<Rightarrow> nat \<Rightarrow> real \<Rightarrow> real list list" where
  "set2 a i j v = a[i := (a ! i)[j := v]]"

definition getAllEdges :: "real list list \<Rightarrow> nat \<Rightarrow> (nat \<times> nat) list" where
  "getAllEdges a n = [(i, j). i \<leftarrow> [0..<n], j \<leftarrow> [i + 1..<n], a ! i ! j = 1]"

definition createAllToAll :: "nat \<Rightarrow> network" where
  "createAllToAll n =
     (let a = fold (\<lambda>i a. fold (\<lambda>j a. if i \<noteq> j then set2 a i j 1 else a) [0..<n] a) [0..<n] (zeros n)
      in \<lparr>nw_adjacency = a, nw_edges = getAllEdges a n, nw_type = ''all-to-all''\<rparr>)"

fun randomRow :: "nat \<Rightarrow> real \<Rightarrow> nat list \<Rightarrow> real list list \<Rightarrow> rng \<Rightarrow> real list list \<times> rng" where
  "randomRow i p [] a g = (a, g)"
| "randomRow i p (j # js) a g =
     (let (u, g') = random g
      in randomRow i p js (if u < p then set2 (set2 a i j 1) j i 1 else a) g')"

fun randomRows :: "nat \<Rightarrow> real \<Rightarrow> nat list \<Rightarrow> real list list \<Rightarrow> rng \<Rightarrow> real list list \<times> rng" where
  "randomRows n p [] a g = (a, g)"
| "randomRows n p (i # is) a g =
     (let (a', g') = randomRow i p [i + 1..<n] a g in randomRows n p is a' g')"

definition createRandom :: "nat \<Rightarrow> real \<Rightarrow> rng \<Rightarrow> network \<times> rng" where
  "createRandom n probability g =
     (let (a, g') = randomRows n probability [0..<n] (zeros n) g
      in (\<lparr>nw_adjacency = a, nw_edges = getAllEdges a n, nw_type = ''random''\<rparr>, g'))"

text \<open>\<open>createRing(N, k)\<close>.\<close>

definition createRing :: "nat \<Rightarrow> nat \<Rightarrow> network" where
  "createRing n k =
     (let a = fold (\<lambda>i a. fold (\<lambda>j a. (let neighbor = (i + j) mod n
                                         in set2 (set2 a i neighbor 1) neighbor i 1))
                              [1..<k + 1] a)
                [0..<n] (zeros n)
      in \<lparr>nw_adjacency = a, nw_edges = getAllEdges a n, nw_type = ''ring''\<rparr>)"

text \<open>\<open>createSmallWorld(N, k, rewiringProb)\<close>, step 1: the ring lattice. The second
  neighbour is computed with JavaScript's remainder; when it is negative the write
  \<open>adjacency[neighbor2][i] = 1\<close> throws.\<close>

definition ringStep :: "nat \<Rightarrow> nat \<times> nat \<Rightarrow> real list list \<Rightarrow> error + real list list" where
  "ringStep n ij a =
     (let (i, j) = ij;
          neighbor1 = (i + j) mod n;
          neighbor2 = jsrem (int i - int j + int n) (int n);
          a1 = set2 (set2 a i neighbor1 1) neighbor1 i 1
      in if neighbor2 \<noteq> int neighbor1
         then (if neighbor2 < 0 then Inl TypeError
               else Inr (set2 (set2 a1 i (nat neighbor2) 1) (nat neighbor2) i 1))
         else Inr a1)"

fun ringLoop :: "nat \<Rightarrow> (nat \<times> nat) list \<Rightarrow> real list list \<Rightarrow> error + real list list" where
  "ringLoop n [] a = Inr a"
| "ringLoop n (ij # rest) a =
     (case ringStep n ij a of Inl e \<Rightarrow> Inl e | Inr a' \<Rightarrow> ringLoop n rest a')"

definition ringLattice :: "nat \<Rightarrow> nat \<Rightarrow> error + real list list" where
  "ringLattice n k = ringLoop n (List.product [0..<n] [1..<k div 2 + 1]) (zeros n)"

text \<open>Step 2: every edge of the lattice is rewired with probability \<open>rewiringProb\<close>.
  The old edge is removed first; a new target is drawn up to 100 more times while it is
  the node itself or already a neighbour; the new edge is added only when the attempts
  stayed below 100.\<close>

function pickTarget :: "real list list \<Rightarrow> nat \<Rightarrow> nat \<Rightarrow> nat \<Rightarrow> nat \<Rightarrow> rng \<Rightarrow> nat \<times> nat \<times> rng" where
  "pickTarget a n i newTarget attempts g =
     (if (newTarget = i \<or> a ! i ! newTarget = 1) \<and> attempts < 100
      then (let (u, g') = random g
            in pickTarget a n i (nat \<lfloor>u * real n\<rfloor>) (attempts + 1) g')
      else (newTarget, attempts, g))"
  by pat_completeness auto
termination
  by (relation "measure (\<lambda>(a, n, i, newTarget, attempts, g). 100 - attempts)")
     (auto simp: random_def)

declare pickTarget.simps [simp del]

definition rewireEdge :: "nat \<Rightarrow> real \<Rightarrow> nat \<times> nat \<Rightarrow> real list list \<times> rng \<Rightarrow> real list list \<times> rng" where
  "rewireEdge n rewiringProb e ag =
     (let (i, j) = e;
          (a, g) = ag;
          (u, g1) = random g
      in if u < rewiringProb
         then (let a1 = set2 (set2 a i j 0) j i 0;
                   (u2, g2) = random g1;
                   (newTarget, attempts, g3) = pickTarget a1 n i (nat \<lfloor>u2 * real n\<rfloor>) 0 g2
               in if attempts < 100
                  then (set2 (set2 a1 i newTarget 1) newTarget i 1, g3)
                  else (a1, g3))
         else (a, g1))"

definition createSmallWorld :: "nat \<Rightarrow> nat \<Rightarrow> real \<Rightarrow> rng \<Rightarrow> error + (network \<times> rng)" where
  "createSmallWorld n k rewiringProb g =
     (case ringLattice n k of
        Inl e \<Rightarrow> Inl e
      | Inr lattice \<Rightarrow>
          (let (a, g') = fold (rewireEdge n rewiringProb) (getAllEdges lattice n) (lattice, g)
           in Inr (\<lparr>nw_adjacency = a, nw_edges = getAllEdges a n, nw_type = ''small-world''\<rparr>, g')))"

text \<open>\<open>createScaleFree(N, m)\<close>. The target set keeps insertion order and no duplicates.
  Neither the roulette pass nor the fallback draw is sure to add a new target, so the
  \<open>while\<close> loop need not end: not returning is \<open>None\<close>.\<close>

definition seedGraph :: "nat \<Rightarrow> real list list \<Rightarrow> real list list" where
  "seedGraph m0 a = fold (\<lambda>i a. fold (\<lambda>j a. set2 (set2 a i j 1) j i 1) [i + 1..<m0] a) [0..<m0] a"

definition degreesOf :: "real list list \<Rightarrow> nat \<Rightarrow> real list" where
  "degreesOf a i = map (\<lambda>j. foldl (\<lambda>d k. d + a ! j ! k) 0 [0..<i]) [0..<i]"

fun roulette :: "real list \<Rightarrow> real \<Rightarrow> nat list \<Rightarrow> nat list \<Rightarrow> real \<Rightarrow> nat option" where
  "roulette degrees rand targets [] s = None"
| "roulette degrees rand targets (j # js) s =
     (if s + degrees ! j \<ge> rand \<and> j \<notin> set targets then Some j
      else roulette degrees rand targets js (s + degrees ! j))"

definition addTarget :: "nat list \<Rightarrow> nat \<Rightarrow> nat list" where
  "addTarget targets t = (if t \<in> set targets then targets else targets @ [t])"

partial_function (option) attachLoop ::
  "real list \<Rightarrow> real \<Rightarrow> nat \<Rightarrow> nat \<Rightarrow> nat list \<Rightarrow> rng \<Rightarrow> (nat list \<times> rng) option" where
  "attachLoop degrees totalDegree i wanted targets g =
     (if length targets < wanted
      then (let (u, g1) = random g;
                targets1 = (case roulette degrees (u * totalDegree) targets [0..<i] 0 of
                              None \<Rightarrow> targets
                            | Some j \<Rightarrow> addTarget targets j)
            in if length targets1 < wanted
               then (let (u2, g2) = random g1
                     in attachLoop degrees totalDegree i wanted
                          (addTarget targets1 (nat \<lfloor>u2 * real i\<rfloor>)) g2)
               else attachLoop degrees totalDegree i wanted targets1 g1)
      else Some (targets, g))"

fun growLoop :: "nat \<Rightarrow> nat list \<Rightarrow> real list list \<Rightarrow> rng \<Rightarrow> (real list list \<times> rng) option" where
  "growLoop m [] a g = Some (a, g)"
| "growLoop m (i # is) a g =
     (let degrees = degreesOf a i;
          totalDegree = foldl (\<lambda>t d. t + d) 0 degrees
      in case attachLoop degrees totalDegree i (min m i) [] g of
           None \<Rightarrow> None
         | Some (targets, g') \<Rightarrow>
             growLoop m is (fold (\<lambda>target a. set2 (set2 a i target 1) target i 1) targets a) g')"

definition createScaleFree :: "nat \<Rightarrow> nat \<Rightarrow> rng \<Rightarrow> (network \<times> rng) option" where
  "createScaleFree n m g =
     (let m0 = min (m + 1) n
      in case growLoop m [m0..<n] (seedGraph m0 (zeros n)) g of
           None \<Rightarrow> None
         | Some (a, g') \<Rightarrow>
             Some (\<lparr>nw_adjacency = a, nw_edges = getAllEdges a n, nw_type = ''scale-free''\<rparr>, g'))"

section \<open>Example inputs\<close>

text \<open>A one-oscillator configuration, a run of draws in \<open>[0, 1)\<close>, and small models,
  parameter updates, run histories and stimulus objects.\<close>

definition singleConfig :: config where
  "singleConfig = \<lparr>c_N = Some 1, c_K = None, c_dt = None, c_noiseLevel = None, c_phaseLag = None\<rparr>"

definition edgeDraws :: rng where
  "edgeDraws = 0 ## 1 / 2 ## 1 / 4 ## sconst 0"

definition uncoupled :: KuramotoModel where
  "uncoupled = \<lparr>N = 2, K = 0, dt = 0.01, noiseLevel = 0, phaseLag = 0, theta = [0, 1],
     omega = [1, 2], adjacency = None, time = 0, history = emptyHistory, maxHistoryLength = 10000\<rparr>"

definition someParams :: params where
  "someParams = \<lparr>p_K = Some 0, p_noiseLevel = Some 0.5, p_phaseLag = None, p_dt = Some 0.01, p_N = Some 2\<rparr>"

definition shortRun :: runHistory where
  "shortRun = \<lparr>rh_time = Some [0.05, 0.1], rh_orderParameter = Some [0.5, 0.25]\<rparr>"

definition tinyConfig :: fieldConfig where
  "tinyConfig = \<lparr>fc_gridSize = Some 1, fc_K = None, fc_dt = None, fc_noiseLevel = None,
     fc_phaseLag = None, fc_K_stim = None, fc_K_feat = None, fc_spatialRange = None,
     fc_spatialDecay = None, fc_networkType = None, fc_numFeatures = None\<rparr>"

definition zeroObject :: objectConfig where
  "zeroObject = \<lparr>i_id = None, i_x = Some 0, i_y = Some 0, i_vx = Some 1, i_vy = None,
     i_radius = Some 2, i_intensity = Some 0, i_features = None\<rparr>"

section \<open>Specification predicates for the generators\<close>

text \<open>\<open>Math.random()\<close> returns a number in \<open>[0, 1)\<close>.\<close>

definition validDraws :: "rng \<Rightarrow> bool" where
  "validDraws g = (\<forall>u\<in>sset g. 0 \<le> u \<and> u < 1)"

text \<open>An \<open>n\<close> by \<open>n\<close> matrix that is symmetric.\<close>

definition symmetricMatrix :: "nat \<Rightarrow> real list list \<Rightarrow> bool" where
  "symmetricMatrix n a =
     (length a = n \<and> (\<forall>i<n. length (a ! i) = n) \<and> (\<forall>i<n. \<forall>j<n. a ! i ! j = a ! j ! i))"

text \<open>The edges \<open>getAllEdges\<close> lists, as a set.\<close>

definition edgeSet :: "nat \<Rightarrow> real list list \<Rightarrow> (nat \<times> nat) set" where
  "edgeSet n a = {(i, j). i < j \<and> j < n \<and> a ! i ! j = 1}"

text \<open>Ghost observers of the rewiring phase: did the attempt on an edge give up (the
  edge was selected and the attempts reached 100), and on how many edges of a list.\<close>

definition gaveUp :: "nat \<Rightarrow> real \<Rightarrow> nat \<times> nat \<Rightarrow> real list list \<times> rng \<Rightarrow> bool" where
  "gaveUp n rewiringProb e ag =
     (let (i, j) = e;
          (a, g) = ag;
          (u, g1) = random g
      in u < rewiringProb \<and>
         (let a1 = set2 (set2 a i j 0) j i 0;
              (u2, g2) = random g1;
              (newTarget, attempts, g3) = pickTarget a1 n i (nat \<lfloor>u2 * real n\<rfloor>) 0 g2
          in \<not> attempts < 100))"

fun dropped :: "nat \<Rightarrow> real \<Rightarrow> (nat \<times> nat) list \<Rightarrow> real list list \<times> rng \<Rightarrow> nat" where
  "dropped n rewiringProb [] ag = 0"
| "dropped n rewiringProb (e # es) ag =
     (if gaveUp n rewiringProb e ag then 1 else 0)
       + dropped n rewiringProb es (rewireEdge n rewiringProb e ag)"

section \<open>Properties of the Kuramoto engine\<close>

lemma step_frame:
  assumes "step m g = Inr (m', g')"
  shows "N m' = N m \<and> K m' = K m \<and> dt m' = dt m \<and> noiseLevel m' = noiseLevel m \<and>
         phaseLag m' = phaseLag m \<and> omega m' = omega m \<and> adjacency m' = adjacency m \<and>
         time m' = time m + dt m"
  using assms
  by (auto simp: step_def recordHistory_def Let_def split: sum.splits prod.splits)

lemma step_history:
  assumes "step m g = Inr (m', g')"
  shows "h_time (history m') = h_time (history m) @ [time m'] \<and>
         h_orderParameter (history m') = h_orderParameter (history m) @ [calculateOrderParameter m'] \<and>
         h_phases (history m') = h_phases (history m) @ [theta m']"
  using assms
  by (auto simp: step_def recordHistory_def calculateOrderParameter_def Let_def split: sum.splits prod.splits)

lemma steps_history_length:
  "steps n m g = Inr (m', g') \<Longrightarrow>
     length (h_time (history m')) = length (h_time (history m)) + n \<and>
     length (h_orderParameter (history m')) = length (h_orderParameter (history m)) + n \<and>
     length (h_phases (history m')) = length (h_phases (history m)) + n"
proof (induction n arbitrary: m g)
  case 0
  then show ?case by simp
next
  case (Suc n)
  from Suc.prems obtain m1 g1 where s: "step m g = Inr (m1, g1)" and r: "steps n m1 g1 = Inr (m', g')"
    by (auto split: sum.splits)
  show ?case using Suc.IH[OF r] step_history[OF s] by simp
qed

lemma couplingLoop_total_None:
  "adjacency m = None \<Longrightarrow> \<exists>c'. couplingLoop m th i js c = Inr c'"
  by (induction js arbitrary: c) (auto simp: S_ij_def)

lemma derivLoop_None_noiseless:
  assumes "adjacency m = None" "noiseLevel m = 0"
  shows "\<exists>k. derivLoop m th is g = Inr (k, g)"
proof (induction "is")
  case Nil
  then show ?case by simp
next
  case (Cons i "is")
  then obtain k where k: "derivLoop m th is g = Inr (k, g)" by blast
  obtain c where c: "couplingLoop m th i [0..<N m] 0 = Inr c"
    using couplingLoop_total_None[OF assms(1)] by blast
  show ?case using assms k c by simp
qed

lemma steps_total_None_noiseless:
  assumes "adjacency m = None" "noiseLevel m = 0"
  shows "\<exists>m'. steps n m g = Inr (m', g)"
  using assms
proof (induction n arbitrary: m)
  case 0
  then show ?case by simp
next
  case (Suc n)
  obtain k1 where k1: "computeDerivatives m (theta m) g = Inr (k1, g)"
    using derivLoop_None_noiseless[OF Suc.prems] unfolding computeDerivatives_def by blast
  obtain k2 where k2: "computeDerivatives m (stage (N m) (theta m) (0.5 * dt m) k1) g = Inr (k2, g)"
    using derivLoop_None_noiseless[OF Suc.prems] unfolding computeDerivatives_def by blast
  obtain k3 where k3: "computeDerivatives m (stage (N m) (theta m) (0.5 * dt m) k2) g = Inr (k3, g)"
    using derivLoop_None_noiseless[OF Suc.prems] unfolding computeDerivatives_def by blast
  obtain k4 where k4: "computeDerivatives m (stage (N m) (theta m) (dt m) k3) g = Inr (k4, g)"
    using derivLoop_None_noiseless[OF Suc.prems] unfolding computeDerivatives_def by blast
  obtain m1 where s: "step m g = Inr (m1, g)"
    by (simp only: step_def Let_def k1 k2 k3 k4 sum.case prod.case)
  have "adjacency m1 = None" "noiseLevel m1 = 0" using step_frame[OF s] Suc.prems by simp_all
  from Suc.IH[OF this] obtain m' where "steps n m1 g = Inr (m', g)" by blast
  then show ?case using s by auto
qed

lemma initialize_frame:
  "adjacency (fst (initialize m g)) = adjacency m \<and> noiseLevel (fst (initialize m g)) = noiseLevel m \<and>
   maxHistoryLength (fst (initialize m g)) = maxHistoryLength m \<and>
   history (fst (initialize m g)) = emptyHistory"
  by (simp add: initialize_def Let_def split: prod.splits)

lemma steps_cap:
  "steps n m g = Inr (m', g') \<Longrightarrow> maxHistoryLength m' = maxHistoryLength m"
proof (induction n arbitrary: m g)
  case 0
  then show ?case by simp
next
  case (Suc n)
  from Suc.prems obtain m1 g1 where s: "step m g = Inr (m1, g1)" and r: "steps n m1 g1 = Inr (m', g')"
    by (auto split: sum.splits)
  have "maxHistoryLength m1 = maxHistoryLength m"
    using s by (auto simp: step_def recordHistory_def Let_def split: sum.splits prod.splits)
  then show ?case using Suc.IH[OF r] by simp
qed

text \<open>C1, as the code has it: \<open>recordHistory\<close> enforces no cap. Every step that returns appends
  exactly one entry to each of \<open>history.time\<close>, \<open>history.orderParameter\<close> and
  \<open>history.phases\<close> and evicts nothing, so after \<open>n\<close> steps each list is \<open>n\<close> entries
  longer, in lockstep; \<open>maxHistoryLength\<close> is carried along and never consulted.\<close>

theorem C1_history_grows_without_cap:
  assumes "steps n m g = Inr (m', g')"
  shows "length (h_time (history m')) = length (h_time (history m)) + n \<and>
         length (h_orderParameter (history m')) = length (h_orderParameter (history m)) + n \<and>
         length (h_phases (history m')) = length (h_phases (history m)) + n \<and>
         maxHistoryLength m' = maxHistoryLength m"
  using steps_history_length[OF assms] steps_cap[OF assms] by simp

text \<open>Three steps of the uncoupled example model.\<close>

theorem C1_history_grows_witness:
  "\<exists>m' g'. steps 3 uncoupled (sconst 0) = Inr (m', g') \<and> length (h_time (history m')) = 3 \<and>
     length (h_orderParameter (history m')) = 3 \<and> length (h_phases (history m')) = 3"
proof -
  have "adjacency uncoupled = None" "noiseLevel uncoupled = 0" by (simp_all add: uncoupled_def)
  then obtain m' where s: "steps 3 uncoupled (sconst 0) = Inr (m', sconst 0)"
    using steps_total_None_noiseless by blast
  have "history uncoupled = emptyHistory" by (simp add: uncoupled_def)
  then show ?thesis
    using C1_history_grows_without_cap[OF s] s by (simp add: emptyHistory_def)
qed

text \<open>C1 as stated fails: a model fresh from the constructor holds 10001 entries after
  10001 steps, one more than its \<open>maxHistoryLength\<close> of 10000.\<close>

theorem C1_history_exceeds_cap:
  "map_sum id (\<lambda>(m, g). (length (h_time (history m)), maxHistoryLength m))
     (case constructor singleConfig edgeDraws of (m0, g0) \<Rightarrow> steps 10001 m0 g0) = Inr (10001, 10000)"
proof -
  obtain m0 g0 where c: "constructor singleConfig edgeDraws = (m0, g0)" by (cases "constructor singleConfig edgeDraws")
  have m0: "m0 = fst (constructor singleConfig edgeDraws)" using c by simp
  have f: "adjacency m0 = None" "noiseLevel m0 = 0" "maxHistoryLength m0 = 10000" "history m0 = emptyHistory"
    by (simp_all add: m0 constructor_def initialize_frame singleConfig_def orDefault_def)
  obtain m' where s: "steps 10001 m0 g0 = Inr (m', g0)"
    using steps_total_None_noiseless[OF f(1,2)] by blast
  show ?thesis
    using steps_history_length[OF s] steps_cap[OF s] f
    by (simp add: c s emptyHistory_def)
qed

text \<open>C9: \<open>setNetwork\<close> leaves \<open>theta\<close>, \<open>omega\<close>, \<open>time\<close> and \<open>history\<close> as they were, and so
  does \<open>updateParameters\<close> whenever \<open>params.N\<close> is absent or equal to the current \<open>N\<close>
  (it then draws nothing from the random source either).\<close>

theorem C9_frame:
  "theta (setNetwork m a) = theta m \<and> omega (setNetwork m a) = omega m \<and>
   time (setNetwork m a) = time m \<and> history (setNetwork m a) = history m \<and>
   (p_N p = None \<or> p_N p = Some (N m) \<longrightarrow>
      theta (fst (updateParameters m p g)) = theta m \<and> omega (fst (updateParameters m p g)) = omega m \<and>
      time (fst (updateParameters m p g)) = time m \<and> history (fst (updateParameters m p g)) = history m \<and>
      snd (updateParameters m p g) = g)"
  by (auto simp: setNetwork_def updateParameters_def Let_def split: option.splits)

text \<open>An update of \<open>K\<close>, \<open>noiseLevel\<close> and \<open>dt\<close> that repeats the current \<open>N = 2\<close>.\<close>

theorem C9_frame_witness:
  "theta (fst (updateParameters uncoupled someParams edgeDraws)) = [0, 1] \<and>
   omega (fst (updateParameters uncoupled someParams edgeDraws)) = [1, 2] \<and>
   time (fst (updateParameters uncoupled someParams edgeDraws)) = 0 \<and>
   history (fst (updateParameters uncoupled someParams edgeDraws)) = emptyHistory \<and>
   theta (setNetwork uncoupled (Some [[0, 1], [1, 0]])) = [0, 1]"
proof -
  have "p_N someParams = None \<or> p_N someParams = Some (N uncoupled)"
    by (simp add: someParams_def uncoupled_def)
  then show ?thesis
    using C9_frame[of uncoupled "Some [[0, 1], [1, 0]]" someParams edgeDraws]
    by (simp add: uncoupled_def)
qed

section \<open>Properties of the run metrics\<close>

lemma short_series_checks:
  "length r < 100 \<Longrightarrow> \<not> checkConvergence r f s \<and> \<not> detectOscillation r"
  by (simp add: checkConvergence_def detectOscillation_def)

lemma short_metrics_flags:
  assumes "calculateRunMetrics (Some h) = Inr mt" "rh_orderParameter h = Some r" "r \<noteq> []"
    and "length r < 100"
  shows "\<not> converged mt \<and> \<not> oscillating mt"
  using assms unfolding calculateRunMetrics_def Let_def
  by (auto split: sum.splits simp: short_series_checks)

lemma empty_history_metrics:
  "calculateRunMetrics None = Inr emptyMetrics"
  "rh_orderParameter h = None \<or> rh_orderParameter h = Some [] \<Longrightarrow>
     calculateRunMetrics (Some h) = Inr emptyMetrics"
  by (auto simp: calculateRunMetrics_def)

text \<open>C7: a missing history, a missing \<open>orderParameter\<close> and an empty one all return the
  all-zero summary, with no error; and a series of fewer than 100 points is neither
  converged nor oscillating, in the two checks and in every summary that is returned.\<close>

theorem C7_degrades_gracefully:
  "calculateRunMetrics None =
     Inr \<lparr>finalR = 0, meanR = 0, stdR = 0, minR = 0, maxR = 0, settlingTime = None,
          converged = False, oscillating = False\<rparr> \<and>
   (rh_orderParameter h = None \<or> rh_orderParameter h = Some [] \<longrightarrow>
      calculateRunMetrics (Some h) =
        Inr \<lparr>finalR = 0, meanR = 0, stdR = 0, minR = 0, maxR = 0, settlingTime = None,
             converged = False, oscillating = False\<rparr>) \<and>
   (length r < 100 \<longrightarrow> \<not> checkConvergence r f s \<and> \<not> detectOscillation r) \<and>
   (rh_orderParameter h = Some r \<and> length r < 100 \<and> calculateRunMetrics (Some h) = Inr mt \<longrightarrow>
      \<not> converged mt \<and> \<not> oscillating mt)"
proof -
  have "rh_orderParameter h = Some r \<and> length r < 100 \<and> calculateRunMetrics (Some h) = Inr mt \<longrightarrow>
      \<not> converged mt \<and> \<not> oscillating mt"
  proof (cases "r = []")
    case True
    then show ?thesis using empty_history_metrics(2)[of h] by (auto simp: emptyMetrics_def)
  next
    case False
    then show ?thesis using short_metrics_flags[of h mt r] by blast
  qed
  then show ?thesis
    using empty_history_metrics(1) empty_history_metrics(2)[of h] short_series_checks[of r f s]
    unfolding emptyMetrics_def by blast
qed

lemma shortRun_returns: "\<exists>mt. calculateRunMetrics (Some shortRun) = Inr mt"
  by (simp add: calculateRunMetrics_def shortRun_def calculateSettlingTime_def Let_def settled_def
      eval_nat_numeral)

text \<open>An empty series without a time list, and a two-point run.\<close>

theorem C7_degrades_witness:
  "calculateRunMetrics (Some \<lparr>rh_time = None, rh_orderParameter = Some []\<rparr>) = Inr emptyMetrics \<and>
   \<not> checkConvergence [0.5, 0.25] 0.25 0.125 \<and> \<not> detectOscillation [0.5, 0.25] \<and>
   (\<exists>mt. calculateRunMetrics (Some shortRun) = Inr mt \<and> \<not> converged mt \<and> \<not> oscillating mt)"
proof -
  obtain mt where mt: "calculateRunMetrics (Some shortRun) = Inr mt" using shortRun_returns by blast
  have r: "rh_orderParameter shortRun = Some [0.5, 0.25]" by (simp add: shortRun_def)
  have "\<not> converged mt \<and> \<not> oscillating mt"
    using C7_degrades_gracefully[of shortRun "[0.5, 0.25]" 0 0 mt] mt r by simp
  moreover have "\<not> checkConvergence [0.5, 0.25] 0.25 0.125 \<and> \<not> detectOscillation [0.5, 0.25]"
    using C7_degrades_gracefully[of shortRun "[0.5, 0.25]" "0.25" "0.125" mt] by simp
  moreover have "calculateRunMetrics (Some \<lparr>rh_time = None, rh_orderParameter = Some []\<rparr>) = Inr emptyMetrics"
    using C7_degrades_gracefully[of "\<lparr>rh_time = None, rh_orderParameter = Some []\<rparr>" "[]" 0 0 mt]
    by (simp add: emptyMetrics_def)
  ultimately show ?thesis using mt by blast
qed

section \<open>Properties of the attention field engine\<close>

text \<open>C10: \<open>addStimulusObject\<close> appends one object; a supplied \<open>x = 0\<close> or \<open>y = 0\<close> is stored
  as \<open>gridSize / 2\<close> and a supplied \<open>intensity = 0\<close> as 1, so no stored object has
  intensity 0 or, on a non-empty grid, a coordinate 0.\<close>

theorem C10_falsy_takes_default:
  "stimulusObjects (fst (addStimulusObject m obj g))
     = stimulusObjects m @ [last (stimulusObjects (fst (addStimulusObject m obj g)))] \<and>
   (i_x obj = Some 0 \<longrightarrow>
      o_x (last (stimulusObjects (fst (addStimulusObject m obj g)))) = real (gridSize m) / 2) \<and>
   (i_y obj = Some 0 \<longrightarrow>
      o_y (last (stimulusObjects (fst (addStimulusObject m obj g)))) = real (gridSize m) / 2) \<and>
   (i_intensity obj = Some 0 \<longrightarrow>
      o_intensity (last (stimulusObjects (fst (addStimulusObject m obj g)))) = 1) \<and>
   (gridSize m \<noteq> 0 \<longrightarrow>
      o_x (last (stimulusObjects (fst (addStimulusObject m obj g)))) \<noteq> 0 \<and>
      o_y (last (stimulusObjects (fst (addStimulusObject m obj g)))) \<noteq> 0) \<and>
   o_intensity (last (stimulusObjects (fst (addStimulusObject m obj g)))) \<noteq> 0"
  by (simp add: addStimulusObject_def orDefault_def Let_def split: prod.splits option.splits)

lemma af_initialize_frame:
  "gridSize (fst (af_initialize m g)) = gridSize m \<and> af_adjacency (fst (af_initialize m g)) = af_adjacency m \<and>
   stimulusObjects (fst (af_initialize m g)) = stimulusObjects m \<and>
   af_N (fst (af_initialize m g)) = af_N m \<and>
   af_history (fst (af_initialize m g)) = emptyFieldHistory"
  by (simp add: af_initialize_def Let_def split: prod.splits)

lemma af_constructor_frame:
  "gridSize (fst (af_constructor c g)) = orDefault (fc_gridSize c) 32 \<and>
   af_N (fst (af_constructor c g)) = orDefault (fc_gridSize c) 32 * orDefault (fc_gridSize c) 32 \<and>
   af_adjacency (fst (af_constructor c g)) = None \<and>
   stimulusObjects (fst (af_constructor c g)) = [] \<and>
   af_history (fst (af_constructor c g)) = emptyFieldHistory"
  by (simp add: af_constructor_def Let_def af_initialize_frame)

text \<open>An object with zero coordinates and zero intensity on a fresh one-cell field.\<close>

theorem C10_falsy_witness:
  "o_x (last (stimulusObjects (fst (addStimulusObject (fst (af_constructor tinyConfig edgeDraws)) zeroObject edgeDraws)))) = 1 / 2 \<and>
   o_y (last (stimulusObjects (fst (addStimulusObject (fst (af_constructor tinyConfig edgeDraws)) zeroObject edgeDraws)))) = 1 / 2 \<and>
   o_intensity (last (stimulusObjects (fst (addStimulusObject (fst (af_constructor tinyConfig edgeDraws)) zeroObject edgeDraws)))) = 1"
proof -
  have z: "i_x zeroObject = Some 0" "i_y zeroObject = Some 0" "i_intensity zeroObject = Some 0"
    by (simp_all add: zeroObject_def)
  have g: "gridSize (fst (af_constructor tinyConfig edgeDraws)) = 1"
    by (simp add: af_constructor_frame tinyConfig_def orDefault_def)
  show ?thesis
    using C10_falsy_takes_default[of "fst (af_constructor tinyConfig edgeDraws)" zeroObject edgeDraws] z g
    by simp
qed

lemma updateStimulusField_frame:
  assumes "updateStimulusField m = Inr m1"
  shows "af_history m1 = af_history m \<and> af_N m1 = af_N m \<and> af_adjacency m1 = af_adjacency m \<and>
         af_time m1 = af_time m \<and> af_dt m1 = af_dt m \<and> gridSize m1 = gridSize m"
  using assms by (auto simp: updateStimulusField_def split: sum.splits prod.splits)

lemma af_recordHistory_frame:
  "af_theta (af_recordHistory m) = af_theta m \<and> af_N (af_recordHistory m) = af_N m \<and>
   af_adjacency (af_recordHistory m) = af_adjacency m \<and>
   stimulusObjects (af_recordHistory m) = stimulusObjects m"
  by (simp add: af_recordHistory_def Let_def)

lemma af_recordHistory_lengths:
  assumes "length (fh_time (af_history m)) \<le> 500"
    and "length (fh_attentionMap (af_history m)) = length (fh_time (af_history m))"
    and "length (fh_trackedObjects (af_history m)) = length (fh_time (af_history m))"
  shows "length (fh_time (af_history (af_recordHistory m))) = min (length (fh_time (af_history m)) + 1) 500 \<and>
         length (fh_attentionMap (af_history (af_recordHistory m))) = min (length (fh_time (af_history m)) + 1) 500 \<and>
         length (fh_trackedObjects (af_history (af_recordHistory m))) = min (length (fh_time (af_history m)) + 1) 500"
  using assms by (auto simp: af_recordHistory_def Let_def)

lemma af_recordHistory_fifo:
  assumes "length (fh_time (af_history m)) = 500"
    and "length (fh_attentionMap (af_history m)) = 500"
    and "length (fh_trackedObjects (af_history m)) = 500"
  shows "fh_time (af_history (af_recordHistory m)) = tl (fh_time (af_history m)) @ [af_time m] \<and>
         fh_attentionMap (af_history (af_recordHistory m))
           = tl (fh_attentionMap (af_history m)) @ [calculateAttentionMap m] \<and>
         fh_trackedObjects (af_history (af_recordHistory m))
           = tl (fh_trackedObjects (af_history m)) @ [detectTrackedObjects m]"
proof -
  have ne: "fh_time (af_history m) \<noteq> []" "fh_attentionMap (af_history m) \<noteq> []"
    "fh_trackedObjects (af_history m) \<noteq> []"
    using assms by auto
  show ?thesis using assms ne by (simp add: af_recordHistory_def Let_def)
qed

lemma af_step_shape:
  assumes "af_step m g = Inr (m', g')"
  shows "\<exists>m1 th. updateStimulusField m = Inr m1 \<and>
           m' = af_recordHistory (m1\<lparr>af_theta := map (\<lambda>i. wrapPhase (th i)) [0..<af_N m1],
                                      af_time := af_time m1 + af_dt m1\<rparr>)"
  using assms unfolding af_step_def Let_def
  by (auto split: sum.splits prod.splits)

lemma af_step_lengths:
  assumes "af_step m g = Inr (m', g')"
    and "length (fh_time (af_history m)) \<le> 500"
    and "length (fh_attentionMap (af_history m)) = length (fh_time (af_history m))"
    and "length (fh_trackedObjects (af_history m)) = length (fh_time (af_history m))"
  shows "length (fh_time (af_history m')) = min (length (fh_time (af_history m)) + 1) 500 \<and>
         length (fh_attentionMap (af_history m')) = min (length (fh_time (af_history m)) + 1) 500 \<and>
         length (fh_trackedObjects (af_history m')) = min (length (fh_time (af_history m)) + 1) 500"
proof -
  obtain m1 th where m1: "updateStimulusField m = Inr m1"
    and m': "m' = af_recordHistory (m1\<lparr>af_theta := map (\<lambda>i. wrapPhase (th i)) [0..<af_N m1],
                                         af_time := af_time m1 + af_dt m1\<rparr>)"
    using af_step_shape[OF assms(1)] by blast
  let ?m2 = "m1\<lparr>af_theta := map (\<lambda>i. wrapPhase (th i)) [0..<af_N m1], af_time := af_time m1 + af_dt m1\<rparr>"
  have h: "af_history ?m2 = af_history m" using updateStimulusField_frame[OF m1] by simp
  show ?thesis unfolding m' using af_recordHistory_lengths[of ?m2] assms(2-4) unfolding h by simp
qed

lemma af_steps_lengths:
  "af_steps n m g = Inr (m', g') \<Longrightarrow> length (fh_time (af_history m)) \<le> 500 \<Longrightarrow>
   length (fh_attentionMap (af_history m)) = length (fh_time (af_history m)) \<Longrightarrow>
   length (fh_trackedObjects (af_history m)) = length (fh_time (af_history m)) \<Longrightarrow>
   length (fh_time (af_history m')) = min (length (fh_time (af_history m)) + n) 500 \<and>
   length (fh_attentionMap (af_history m')) = min (length (fh_time (af_history m)) + n) 500 \<and>
   length (fh_trackedObjects (af_history m')) = min (length (fh_time (af_history m)) + n) 500"
proof (induction n arbitrary: m g)
  case 0
  then show ?case by simp
next
  case (Suc n)
  from Suc.prems(1) obtain m1 g1 where s: "af_step m g = Inr (m1, g1)" and r: "af_steps n m1 g1 = Inr (m', g')"
    by (auto split: sum.splits)
  note l = af_step_lengths[OF s Suc.prems(2-4)]
  have "length (fh_time (af_history m1)) \<le> 500" using l by simp
  moreover have "length (fh_attentionMap (af_history m1)) = length (fh_time (af_history m1))" using l by simp
  moreover have "length (fh_trackedObjects (af_history m1)) = length (fh_time (af_history m1))" using l by simp
  ultimately show ?case using Suc.IH[OF r] l by simp
qed

lemma stimulusLoop_total:
  "af_adjacency m = None \<Longrightarrow> \<exists>c'. stimulusLoop m th idx js c = Inr c'"
  by (induction js arbitrary: c) (auto simp: weight_def Let_def)

lemma featureLoop_total:
  "af_adjacency m = None \<Longrightarrow> \<exists>c'. featureLoop m th idx js c = Inr c'"
  by (induction js arbitrary: c) (auto simp: weight_def Let_def)

lemma af_derivLoop_total:
  assumes "af_adjacency m = None"
  shows "\<exists>k g'. af_derivLoop m th is g = Inr (k, g')"
proof (induction "is" arbitrary: g)
  case Nil
  then show ?case by simp
next
  case (Cons idx "is")
  obtain sc where sc: "stimulusLoop m th idx [0..<af_N m] 0 = Inr sc"
    using stimulusLoop_total[OF assms] by blast
  obtain fc where fc: "featureLoop m th idx [0..<af_N m] 0 = Inr fc"
    using featureLoop_total[OF assms] by blast
  show ?case
  proof (cases "af_noiseLevel m > 0")
    case True
    obtain z g1 where z: "randomNormal 0 0.1 g = (z, g1)" by (cases "randomNormal 0 0.1 g")
    obtain k g2 where "af_derivLoop m th is g1 = Inr (k, g2)" using Cons by blast
    then show ?thesis using True z sc fc by simp
  next
    case False
    obtain k g2 where "af_derivLoop m th is g = Inr (k, g2)" using Cons by blast
    then show ?thesis using False sc fc by simp
  qed
qed

lemma af_step_total:
  assumes "af_adjacency m = None" "stimulusObjects m = []"
  shows "\<exists>m' g'. af_step m g = Inr (m', g') \<and> af_adjacency m' = None \<and> stimulusObjects m' = []"
proof -
  obtain m1 where u: "updateStimulusField m = Inr m1" and a1: "af_adjacency m1 = None"
    and o1: "stimulusObjects m1 = []"
    using assms by (simp add: updateStimulusField_def)
  obtain k1 g1 where d1: "af_computeDerivatives m1 (af_theta m1) g = Inr (k1, g1)"
    using af_derivLoop_total[OF a1] unfolding af_computeDerivatives_def by blast
  obtain k2 g2 where d2: "af_computeDerivatives m1 (stage (af_N m1) (af_theta m1) (0.5 * af_dt m1) k1) g1 = Inr (k2, g2)"
    using af_derivLoop_total[OF a1] unfolding af_computeDerivatives_def by blast
  obtain k3 g3 where d3: "af_computeDerivatives m1 (stage (af_N m1) (af_theta m1) (0.5 * af_dt m1) k2) g2 = Inr (k3, g3)"
    using af_derivLoop_total[OF a1] unfolding af_computeDerivatives_def by blast
  obtain k4 g4 where d4: "af_computeDerivatives m1 (stage (af_N m1) (af_theta m1) (af_dt m1) k3) g3 = Inr (k4, g4)"
    using af_derivLoop_total[OF a1] unfolding af_computeDerivatives_def by blast
  obtain m' where s: "af_step m g = Inr (m', g4)"
    by (simp only: af_step_def Let_def u d1 d2 d3 d4 sum.case prod.case)
  obtain m1' th where "updateStimulusField m = Inr m1'"
    and m': "m' = af_recordHistory (m1'\<lparr>af_theta := map (\<lambda>i. wrapPhase (th i)) [0..<af_N m1'],
                                          af_time := af_time m1' + af_dt m1'\<rparr>)"
    using af_step_shape[OF s] by blast
  then have "m1' = m1" using u by simp
  then have "af_adjacency m' = None" "stimulusObjects m' = []"
    using a1 o1 by (simp_all add: m' af_recordHistory_frame)
  then show ?thesis using s by blast
qed

lemma af_steps_total:
  assumes "af_adjacency m = None" "stimulusObjects m = []"
  shows "\<exists>m' g'. af_steps n m g = Inr (m', g')"
  using assms
proof (induction n arbitrary: m g)
  case 0
  then show ?case by simp
next
  case (Suc n)
  obtain m1 g1 where s: "af_step m g = Inr (m1, g1)" and i: "af_adjacency m1 = None" "stimulusObjects m1 = []"
    using af_step_total[OF Suc.prems] by blast
  obtain m' g' where "af_steps n m1 g1 = Inr (m', g')" using Suc.IH[OF i] by blast
  then show ?case using s by auto
qed

text \<open>C6: started from a history of at most 500 entries with its three lists equally long
  (a fresh model has none), any number of steps leaves the three lists in lockstep and
  at most 500 long; and recording onto a full history drops the oldest entry of each
  list and appends the new one.\<close>

theorem C6_history_bounded:
  "(af_steps n m g = Inr (m', g') \<and> length (fh_time (af_history m)) \<le> 500 \<and>
    length (fh_attentionMap (af_history m)) = length (fh_time (af_history m)) \<and>
    length (fh_trackedObjects (af_history m)) = length (fh_time (af_history m)) \<longrightarrow>
      length (fh_time (af_history m')) = min (length (fh_time (af_history m)) + n) 500 \<and>
      length (fh_time (af_history m')) \<le> 500 \<and>
      length (fh_attentionMap (af_history m')) = length (fh_time (af_history m')) \<and>
      length (fh_trackedObjects (af_history m')) = length (fh_time (af_history m'))) \<and>
   (length (fh_time (af_history a)) = 500 \<and> length (fh_attentionMap (af_history a)) = 500 \<and>
    length (fh_trackedObjects (af_history a)) = 500 \<longrightarrow>
      fh_time (af_history (af_recordHistory a)) = tl (fh_time (af_history a)) @ [af_time a] \<and>
      fh_attentionMap (af_history (af_recordHistory a))
        = tl (fh_attentionMap (af_history a)) @ [calculateAttentionMap a] \<and>
      fh_trackedObjects (af_history (af_recordHistory a))
        = tl (fh_trackedObjects (af_history a)) @ [detectTrackedObjects a])"
  using af_steps_lengths[of n m g m' g'] af_recordHistory_fifo[of a] by simp

text \<open>Five hundred steps of a fresh one-cell field fill the history; the next record evicts.\<close>

theorem C6_history_bounded_witness:
  "\<exists>m' g'. af_steps 500 (fst (af_constructor tinyConfig edgeDraws)) (sconst 0) = Inr (m', g') \<and>
     length (fh_time (af_history m')) = 500 \<and>
     length (fh_attentionMap (af_history m')) = 500 \<and>
     length (fh_trackedObjects (af_history m')) = 500 \<and>
     length (fh_time (af_history (af_recordHistory m'))) = 500 \<and>
     fh_time (af_history (af_recordHistory m')) = tl (fh_time (af_history m')) @ [af_time m']"
proof -
  let ?a = "fst (af_constructor tinyConfig edgeDraws)"
  have f: "af_adjacency ?a = None" "stimulusObjects ?a = []" "af_history ?a = emptyFieldHistory"
    by (simp_all add: af_constructor_frame)
  obtain m' g' where s: "af_steps 500 ?a (sconst 0) = Inr (m', g')"
    using af_steps_total[OF f(1,2)] by blast
  have l: "length (fh_time (af_history m')) = 500" "length (fh_attentionMap (af_history m')) = 500"
    "length (fh_trackedObjects (af_history m')) = 500"
    using C6_history_bounded[of 500 ?a "sconst 0" m' g' m'] s f(3)
    by (simp_all add: emptyFieldHistory_def)
  have e: "fh_time (af_history (af_recordHistory m')) = tl (fh_time (af_history m')) @ [af_time m']"
    using C6_history_bounded[of 500 ?a "sconst 0" m' g' m'] l by simp
  have "fh_time (af_history m') \<noteq> []" using l(1) by auto
  then have "length (fh_time (af_history (af_recordHistory m'))) = 500" using e l(1) by simp
  then show ?thesis using s l e by blast
qed

section \<open>Properties of the topology generators\<close>

lemma set2_length: "length (set2 a i j v) = length a"
  by (simp add: set2_def)

lemma set2_row_length: "p < length a \<Longrightarrow> length (set2 a i j v ! p) = length (a ! p)"
  by (cases "p = i") (simp_all add: set2_def)

lemma set2_nth:
  "p < length a \<Longrightarrow> q < length (a ! p) \<Longrightarrow>
     set2 a i j v ! p ! q = (if p = i \<and> q = j then v else a ! p ! q)"
  by (cases "p = i"; cases "q = j") (simp_all add: set2_def)

lemma pair_set_nth:
  assumes "symmetricMatrix n a" "p < n" "q < n"
  shows "set2 (set2 a i j v) j i v ! p ! q
           = (if (p = i \<and> q = j) \<or> (p = j \<and> q = i) then v else a ! p ! q)"
proof -
  have l: "length a = n" "length (a ! p) = n" using assms by (simp_all add: symmetricMatrix_def)
  have "p < length (set2 a i j v)" "q < length (set2 a i j v ! p)"
    using l assms by (simp_all add: set2_length set2_row_length)
  then have e1: "set2 (set2 a i j v) j i v ! p ! q
      = (if p = j \<and> q = i then v else set2 a i j v ! p ! q)"
    by (rule set2_nth)
  have e2: "set2 a i j v ! p ! q = (if p = i \<and> q = j then v else a ! p ! q)"
    using l assms by (intro set2_nth) simp_all
  show ?thesis unfolding e1 e2 by presburger
qed

lemma pair_set_symmetric:
  assumes "symmetricMatrix n a"
  shows "symmetricMatrix n (set2 (set2 a i j v) j i v)"
proof -
  have l: "length a = n" "\<forall>p<n. length (a ! p) = n" "\<forall>p<n. \<forall>q<n. a ! p ! q = a ! q ! p"
    using assms by (simp_all add: symmetricMatrix_def)
  have 1: "length (set2 (set2 a i j v) j i v) = n" using l by (simp add: set2_length)
  have 2: "\<forall>p<n. length (set2 (set2 a i j v) j i v ! p) = n"
    using l by (simp add: set2_length set2_row_length)
  have 3: "\<forall>p<n. \<forall>q<n. set2 (set2 a i j v) j i v ! p ! q = set2 (set2 a i j v) j i v ! q ! p"
    using l(3) by (auto simp: pair_set_nth[OF assms])
  show ?thesis unfolding symmetricMatrix_def using 1 2 3 by blast
qed

lemma edgeSet_finite: "finite (edgeSet n a)"
proof -
  have "edgeSet n a \<subseteq> {..<n} \<times> {..<n}" by (auto simp: edgeSet_def)
  then show ?thesis by (rule finite_subset) simp
qed

lemma edgeSet_remove:
  assumes "symmetricMatrix n a" "i < j" "j < n"
  shows "edgeSet n (set2 (set2 a i j 0) j i 0) = edgeSet n a - {(i, j)}"
  using assms by (auto simp: edgeSet_def pair_set_nth[OF assms(1)] split: if_splits)

lemma edgeSet_add:
  assumes "symmetricMatrix n a" "i < n" "t < n" "t \<noteq> i"
  shows "edgeSet n (set2 (set2 a i t 1) t i 1) = insert (min i t, max i t) (edgeSet n a)"
  using assms by (auto simp: edgeSet_def pair_set_nth[OF assms(1)] min_def max_def split: if_splits)

lemma edgeSet_fresh:
  assumes "symmetricMatrix n a" "i < n" "t < n" "a ! i ! t \<noteq> 1"
  shows "(min i t, max i t) \<notin> edgeSet n a"
proof -
  have "a ! t ! i \<noteq> 1" using assms by (simp add: symmetricMatrix_def)
  then show ?thesis using assms(4) by (auto simp: edgeSet_def min_def max_def)
qed

text \<open>\<open>getAllEdges\<close> lists the edge set without repetition.\<close>

lemma getAllEdges_alt:
  "getAllEdges a n = concat (map (\<lambda>i. map (Pair i) (filter (\<lambda>j. a ! i ! j = 1) [i + 1..<n])) [0..<n])"
proof -
  have "\<And>i xs. concat (map (\<lambda>j. if a ! i ! j = 1 then [(i, j)] else []) xs)
        = map (Pair i) (filter (\<lambda>j. a ! i ! j = 1) xs)"
    subgoal for i xs by (induction xs) simp_all
    done
  then show ?thesis by (simp add: getAllEdges_def)
qed

lemma rows_distinct:
  "distinct (concat (map (\<lambda>i. map (Pair i) (filter (\<lambda>j. a ! i ! j = 1) [i + 1..<n])) [0..<k])) \<and>
   set (concat (map (\<lambda>i. map (Pair i) (filter (\<lambda>j. a ! i ! j = 1) [i + 1..<n])) [0..<k]))
     = {(i, j). i < k \<and> i < j \<and> j < n \<and> a ! i ! j = 1}"
proof (induction k)
  case 0
  then show ?case by simp
next
  case (Suc k)
  have d: "distinct (map (Pair k) (filter (\<lambda>j. a ! k ! j = 1) [k + 1..<n]))"
    by (simp add: distinct_map inj_on_def)
  have s: "set (map (Pair k) (filter (\<lambda>j. a ! k ! j = 1) [k + 1..<n]))
            = {(i, j). i = k \<and> i < j \<and> j < n \<and> a ! i ! j = 1}"
    by auto
  show ?case using Suc d s by (auto simp: less_Suc_eq)
qed

lemma getAllEdges_set: "set (getAllEdges a n) = edgeSet n a"
  using rows_distinct[of a n n] by (auto simp: getAllEdges_alt edgeSet_def)

lemma getAllEdges_distinct: "distinct (getAllEdges a n)"
  using rows_distinct[of a n n] by (simp add: getAllEdges_alt)

lemma getAllEdges_length: "length (getAllEdges a n) = card (edgeSet n a)"
  using getAllEdges_set[of a n] getAllEdges_distinct[of a n] distinct_card by fastforce

lemma zeros_symmetric: "symmetricMatrix n (zeros n)"
  by (simp add: symmetricMatrix_def zeros_def)

lemma ringStep_symmetric:
  assumes "symmetricMatrix n a" "ringStep n ij a = Inr a'"
  shows "symmetricMatrix n a'"
proof -
  obtain i j where ij: "ij = (i, j)" by (cases ij)
  have 1: "symmetricMatrix n (set2 (set2 a i ((i + j) mod n) 1) ((i + j) mod n) i 1)"
    using assms(1) by (rule pair_set_symmetric)
  then have 2: "\<And>t. symmetricMatrix n
      (set2 (set2 (set2 (set2 a i ((i + j) mod n) 1) ((i + j) mod n) i 1) i t 1) t i 1)"
    by (rule pair_set_symmetric)
  show ?thesis using assms(2) 1 2
    by (auto simp: ringStep_def ij Let_def split: if_splits)
qed

lemma ringLoop_symmetric:
  "symmetricMatrix n a \<Longrightarrow> ringLoop n ps a = Inr a' \<Longrightarrow> symmetricMatrix n a'"
proof (induction ps arbitrary: a)
  case Nil
  then show ?case by simp
next
  case (Cons ij ps)
  from Cons.prems(2) obtain a1 where s: "ringStep n ij a = Inr a1" and r: "ringLoop n ps a1 = Inr a'"
    by (auto split: sum.splits)
  show ?case using Cons.IH[OF ringStep_symmetric[OF Cons.prems(1) s] r] .
qed

lemma ringLattice_symmetric: "ringLattice n k = Inr lattice \<Longrightarrow> symmetricMatrix n lattice"
  unfolding ringLattice_def using ringLoop_symmetric[OF zeros_symmetric] by blast

lemma validDraws_next:
  assumes "validDraws g"
  shows "0 \<le> shd g \<and> shd g < 1 \<and> validDraws (stl g)"
proof -
  have "shd g \<in> sset g" by (simp add: shd_sset)
  moreover have "sset (stl g) \<subseteq> sset g" by (auto dest: stl_sset)
  ultimately show ?thesis using assms unfolding validDraws_def by blast
qed

lemma draw_index:
  assumes "0 \<le> u" "u < 1" "0 < n"
  shows "nat \<lfloor>u * real n\<rfloor> < n"
proof -
  have "u * real n < real n" using assms by simp
  then have "\<lfloor>u * real n\<rfloor> < int n" by linarith
  moreover have "0 \<le> \<lfloor>u * real n\<rfloor>" using assms by simp
  ultimately show ?thesis by linarith
qed

lemma pickTarget_result:
  "validDraws g \<Longrightarrow> 0 < n \<Longrightarrow> t0 < n \<Longrightarrow> pickTarget a n i t0 att g = (t, att', g') \<Longrightarrow>
     t < n \<and> validDraws g' \<and> (att' < 100 \<longrightarrow> t \<noteq> i \<and> a ! i ! t \<noteq> 1)"
proof (induction a n i t0 att g rule: pickTarget.induct)
  case (1 a n i newTarget attempts g)
  show ?case
  proof (cases "(newTarget = i \<or> a ! i ! newTarget = 1) \<and> attempts < 100")
    case True
    note v = validDraws_next[OF "1.prems"(1)]
    have "pickTarget a n i newTarget attempts g
            = (let (u, y) = random g in pickTarget a n i (nat \<lfloor>u * real n\<rfloor>) (attempts + 1) y)"
      by (subst pickTarget.simps, rule if_P[OF True])
    then have r: "pickTarget a n i (nat \<lfloor>shd g * real n\<rfloor>) (attempts + 1) (stl g) = (t, att', g')"
      using "1.prems"(4) by (simp add: random_def)
    have b: "nat \<lfloor>shd g * real n\<rfloor> < n" using v "1.prems"(2) by (simp add: draw_index)
    have eq: "(shd g, stl g) = random g" by (simp add: random_def)
    have v3: "validDraws (stl g)" using v by simp
    show ?thesis using "1.IH"[OF True refl eq v3 "1.prems"(2) b r] .
  next
    case False
    have "pickTarget a n i newTarget attempts g = (newTarget, attempts, g)"
      by (subst pickTarget.simps, rule if_not_P[OF False])
    then have "t = newTarget" "att' = attempts" "g' = g" using "1.prems"(4) by simp_all
    then show ?thesis using False "1.prems" by auto
  qed
qed

lemma rewireEdge_step:
  assumes sym: "symmetricMatrix n a" and vd: "validDraws g" and e: "(i, j) \<in> edgeSet n a"
    and r: "rewireEdge n p (i, j) (a, g) = (a', g')"
  shows "symmetricMatrix n a' \<and> validDraws g' \<and> edgeSet n a - {(i, j)} \<subseteq> edgeSet n a' \<and>
         card (edgeSet n a') + (if gaveUp n p (i, j) (a, g) then 1 else 0) = card (edgeSet n a)"
proof (cases "shd g < p")
  case False
  then have "a' = a" "g' = stl g" "\<not> gaveUp n p (i, j) (a, g)"
    using r by (simp_all add: rewireEdge_def gaveUp_def random_def)
  then show ?thesis using sym validDraws_next[OF vd] by auto
next
  case True
  have ij: "i < j" "j < n" "i < n" "0 < n" using e by (auto simp: edgeSet_def)
  let ?a1 = "set2 (set2 a i j 0) j i 0"
  let ?g1 = "stl g"
  let ?g2 = "stl (stl g)"
  let ?t0 = "nat \<lfloor>shd ?g1 * real n\<rfloor>"
  obtain t att g3 where pk: "pickTarget ?a1 n i ?t0 0 ?g2 = (t, att, g3)"
    by (cases "pickTarget ?a1 n i ?t0 0 ?g2") auto
  have v1: "validDraws ?g1" using validDraws_next[OF vd] by simp
  have v2: "validDraws ?g2" "0 \<le> shd ?g1" "shd ?g1 < 1" using validDraws_next[OF v1] by simp_all
  have t0: "?t0 < n" using v2 ij by (simp add: draw_index)
  note res = pickTarget_result[OF v2(1) ij(4) t0 pk]
  have sym1: "symmetricMatrix n ?a1" using sym by (rule pair_set_symmetric)
  have es1: "edgeSet n ?a1 = edgeSet n a - {(i, j)}" using edgeSet_remove[OF sym ij(1,2)] .
  have c1: "card (edgeSet n ?a1) + 1 = card (edgeSet n a)"
    unfolding es1 using card_Suc_Diff1[OF edgeSet_finite e] by simp
  show ?thesis
  proof (cases "att < 100")
    case False
    then have "a' = ?a1" "g' = g3" "gaveUp n p (i, j) (a, g)"
      using r True pk by (simp_all add: rewireEdge_def gaveUp_def random_def)
    then show ?thesis using sym1 res es1 c1 by auto
  next
    case att: True
    let ?a2 = "set2 (set2 ?a1 i t 1) t i 1"
    have a': "a' = ?a2" "g' = g3" "\<not> gaveUp n p (i, j) (a, g)"
      using r True pk att by (simp_all add: rewireEdge_def gaveUp_def random_def)
    have tt: "t < n" "t \<noteq> i" "?a1 ! i ! t \<noteq> 1" using res att by simp_all
    have sym2: "symmetricMatrix n ?a2" using sym1 by (rule pair_set_symmetric)
    have es2: "edgeSet n ?a2 = insert (min i t, max i t) (edgeSet n ?a1)"
      using edgeSet_add[OF sym1 ij(3) tt(1,2)] .
    have fresh: "(min i t, max i t) \<notin> edgeSet n ?a1"
      using edgeSet_fresh[OF sym1 ij(3) tt(1,3)] .
    have c2: "card (edgeSet n ?a2) = card (edgeSet n ?a1) + 1"
      unfolding es2 using fresh edgeSet_finite[of n ?a1] by simp
    show ?thesis using a' sym2 res es1 es2 c1 c2 by auto
  qed
qed

lemma rewire_fold:
  "symmetricMatrix n a \<Longrightarrow> validDraws g \<Longrightarrow> set es \<subseteq> edgeSet n a \<Longrightarrow> distinct es \<Longrightarrow>
   fold (rewireEdge n p) es (a, g) = (a', g') \<Longrightarrow>
     symmetricMatrix n a' \<and> validDraws g' \<and>
     card (edgeSet n a') + dropped n p es (a, g) = card (edgeSet n a)"
proof (induction es arbitrary: a g)
  case Nil
  then show ?case by simp
next
  case (Cons e es)
  obtain i j where ij: "e = (i, j)" by (cases e)
  obtain a1 g1 where s: "rewireEdge n p (i, j) (a, g) = (a1, g1)"
    by (cases "rewireEdge n p (i, j) (a, g)")
  have e: "(i, j) \<in> edgeSet n a" using Cons.prems(3) ij by simp
  note st = rewireEdge_step[OF Cons.prems(1,2) e s]
  have sub: "set es \<subseteq> edgeSet n a1" using Cons.prems(3,4) st ij by auto
  have f: "fold (rewireEdge n p) es (a1, g1) = (a', g')" using Cons.prems(5) ij s by simp
  have "symmetricMatrix n a' \<and> validDraws g' \<and>
        card (edgeSet n a') + dropped n p es (a1, g1) = card (edgeSet n a1)"
    using Cons.IH[of a1 g1] st sub Cons.prems(4) f by simp
  then show ?case using st ij s by simp
qed

lemma smallWorld_edges:
  assumes "validDraws g" "ringLattice n k = Inr lattice"
    and "createSmallWorld n k p g = Inr (nw, g')"
  shows "length (nw_edges nw) + dropped n p (getAllEdges lattice n) (lattice, g)
           = length (getAllEdges lattice n) \<and>
         symmetricMatrix n (nw_adjacency nw) \<and>
         nw_edges nw = getAllEdges (nw_adjacency nw) n"
proof -
  obtain a g1 where f: "fold (rewireEdge n p) (getAllEdges lattice n) (lattice, g) = (a, g1)"
    by (cases "fold (rewireEdge n p) (getAllEdges lattice n) (lattice, g)")
  have nw: "nw = \<lparr>nw_adjacency = a, nw_edges = getAllEdges a n, nw_type = ''small-world''\<rparr>"
    using assms(2,3) f by (simp add: createSmallWorld_def)
  have "symmetricMatrix n a \<and> validDraws g1 \<and>
        card (edgeSet n a) + dropped n p (getAllEdges lattice n) (lattice, g) = card (edgeSet n lattice)"
    using rewire_fold[OF ringLattice_symmetric[OF assms(2)] assms(1) _ getAllEdges_distinct f]
    by (simp add: getAllEdges_set)
  then show ?thesis by (simp add: nw getAllEdges_length)
qed

lemma pickTarget_stuck:
  assumes "shd g = 0" "stl g = g"
  shows "pickTarget a n 0 0 att g = (0, max att 100, g)"
proof (induction "100 - att" arbitrary: att)
  case 0
  then have "\<not> ((0 = (0::nat) \<or> a ! 0 ! 0 = 1) \<and> att < 100)" by simp
  then have "pickTarget a n 0 0 att g = (0, att, g)"
    by (subst pickTarget.simps) (rule if_not_P)
  moreover have "max att 100 = att" using 0 by simp
  ultimately show ?case by simp
next
  case (Suc d)
  then have c: "(0 = (0::nat) \<or> a ! 0 ! 0 = 1) \<and> att < 100" by simp
  have "pickTarget a n 0 0 att g
          = (let (u, y) = random g in pickTarget a n 0 (nat \<lfloor>u * real n\<rfloor>) (att + 1) y)"
    by (subst pickTarget.simps) (rule if_P[OF c])
  also have "\<dots> = pickTarget a n 0 0 (att + 1) g" by (simp add: random_def assms)
  also have "\<dots> = (0, max (att + 1) 100, g)" using Suc by simp
  also have "max (att + 1) 100 = max att 100" using c by simp
  finally show ?case .
qed

lemma zeros_2: "zeros 2 = [[0, 0], [0, 0]]"
  by (simp add: zeros_def eval_nat_numeral)

lemma prod_2: "List.product [0..<2] [1..<2 div 2 + 1] = [(0, 1), (1, 1)]"
  by (simp add: eval_nat_numeral)

lemma ringLattice_2_2: "ringLattice 2 2 = Inr [[0, 1], [1, 0]]"
  unfolding ringLattice_def prod_2 zeros_2
  by (simp add: ringStep_def jsrem_def set2_def Let_def)

text \<open>C2, as the code has it: with draws in \<open>[0, 1)\<close>, the edge count of the returned matrix
  plus the number of edges whose rewiring gave up equals the edge count of the ring
  lattice. Rewiring never adds to the count; an edge that finds a new target within its
  attempts only moves, and one that does not is removed without replacement.\<close>

theorem C2_rewiring_edge_count:
  assumes "validDraws g" "ringLattice n k = Inr lattice" "createSmallWorld n k p g = Inr (nw, g')"
  shows "length (nw_edges nw) + dropped n p (getAllEdges lattice n) (lattice, g)
           = length (getAllEdges lattice n) \<and>
         length (nw_edges nw) \<le> length (getAllEdges lattice n)"
  using smallWorld_edges[OF assms] by linarith

lemma edges_2: "getAllEdges [[0, 1], [1, 0]] 2 = [(0, Suc 0)]"
  by (simp add: getAllEdges_def eval_nat_numeral)

lemma edges_2_empty: "getAllEdges [[0, 0], [0, 0]] 2 = []"
  by (simp add: getAllEdges_def eval_nat_numeral)

lemma rewire_2:
  assumes "shd g = 0" "stl g = g"
  shows "rewireEdge 2 1 (0, Suc 0) ([[0, 1], [1, 0]], g) = ([[0, 0], [0, 0]], g)"
proof -
  have p: "pickTarget [[0, 0], [0, 0]] 2 0 0 0 g = (0, 100, g)"
    using pickTarget_stuck[OF assms, of "[[0, 0], [0, 0]]" 2 0] by simp
  show ?thesis
    by (simp add: rewireEdge_def random_def set2_def assms p)
qed

text \<open>C2 as stated fails: on two nodes with \<open>rewiringProb = 1\<close> and every draw 0 the only
  edge is removed, every candidate target is node 0 itself, and the returned matrix has
  no edge while the lattice had one.\<close>

theorem C2_edge_lost:
  "map_sum id (\<lambda>(nw, g). nw_edges nw) (createSmallWorld 2 2 1 (sconst 0)) = Inr [] \<and>
   map_sum id (\<lambda>a. getAllEdges a 2) (ringLattice 2 2) = Inr [(0, 1)]"
proof -
  have g: "shd (sconst (0::real)) = 0" "stl (sconst (0::real)) = sconst 0" by simp_all
  have f: "fold (rewireEdge 2 1) (getAllEdges [[0, 1], [1, 0]] 2) ([[0, 1], [1, 0]], sconst 0)
             = ([[0, 0], [0, 0]], sconst 0)"
    unfolding edges_2 using rewire_2[OF g] by simp
  have "createSmallWorld 2 2 1 (sconst 0)
          = Inr (\<lparr>nw_adjacency = [[0, 0], [0, 0]], nw_edges = [], nw_type = ''small-world''\<rparr>, sconst 0)"
    by (simp only: createSmallWorld_def ringLattice_2_2 sum.case f prod.case Let_def edges_2_empty)
  then show ?thesis by (simp add: ringLattice_2_2 edges_2)
qed

lemma zeros_3: "zeros 3 = [[0, 0, 0], [0, 0, 0], [0, 0, 0]]"
  by (simp add: zeros_def eval_nat_numeral)

lemma prod_3: "List.product [0..<3] [1..<2 div 2 + 1] = [(0, 1), (1, 1), (2, 1)]"
  by (simp add: eval_nat_numeral)

lemma ringStep_0: "ringStep 3 (0, 1) [[0, 0, 0], [0, 0, 0], [0, 0, 0]] = Inr [[0, 1, 1], [1, 0, 0], [1, 0, 0]]"
  by (simp add: ringStep_def jsrem_def set2_def Let_def numeral_2_eq_2)

lemma ringStep_1: "ringStep 3 (1, 1) [[0, 1, 1], [1, 0, 0], [1, 0, 0]] = Inr [[0, 1, 1], [1, 0, 1], [1, 1, 0]]"
  by (simp add: ringStep_def jsrem_def set2_def Let_def numeral_2_eq_2)

lemma ringStep_2: "ringStep 3 (2, 1) [[0, 1, 1], [1, 0, 1], [1, 1, 0]] = Inr [[0, 1, 1], [1, 0, 1], [1, 1, 0]]"
  by (simp add: ringStep_def jsrem_def set2_def Let_def numeral_2_eq_2)

lemma ringLattice_3_2: "ringLattice 3 2 = Inr [[0, 1, 1], [1, 0, 1], [1, 1, 0]]"
  unfolding ringLattice_def prod_3 zeros_3
  by (simp only: ringLoop.simps ringStep_0 ringStep_1 ringStep_2 sum.case)

lemma edges_3: "getAllEdges [[0, 1, 1], [1, 0, 1], [1, 1, 0]] 3 = [(0, 1), (0, 2), (1, 2)]"
  by (simp add: getAllEdges_def eval_nat_numeral)

text \<open>The triangle \<open>createSmallWorld(3, 2, 0.5)\<close> under the constant draw 0.4.\<close>

theorem C2_rewiring_witness:
  "\<exists>nw g'. createSmallWorld 3 2 (1 / 2) (sconst (2 / 5)) = Inr (nw, g') \<and>
     length (nw_edges nw) + dropped 3 (1 / 2) [(0, 1), (0, 2), (1, 2)]
        ([[0, 1, 1], [1, 0, 1], [1, 1, 0]], sconst (2 / 5)) = 3 \<and>
     length (nw_edges nw) \<le> 3"
proof -
  have v: "validDraws (sconst (2 / 5))" by (simp add: validDraws_def)
  obtain a g1 where f: "fold (rewireEdge 3 (1 / 2)) (getAllEdges [[0, 1, 1], [1, 0, 1], [1, 1, 0]] 3)
       ([[0, 1, 1], [1, 0, 1], [1, 1, 0]], sconst (2 / 5)) = (a, g1)"
    by (cases "fold (rewireEdge 3 (1 / 2)) (getAllEdges [[0, 1, 1], [1, 0, 1], [1, 1, 0]] 3)
       ([[0, 1, 1], [1, 0, 1], [1, 1, 0]], sconst (2 / 5))")
  have c: "createSmallWorld 3 2 (1 / 2) (sconst (2 / 5))
      = Inr (\<lparr>nw_adjacency = a, nw_edges = getAllEdges a 3, nw_type = ''small-world''\<rparr>, g1)"
    by (simp only: createSmallWorld_def ringLattice_3_2 sum.case f prod.case Let_def)
  have "length (nw_edges \<lparr>nw_adjacency = a, nw_edges = getAllEdges a 3, nw_type = ''small-world''\<rparr>)
          + dropped 3 (1 / 2) (getAllEdges [[0, 1, 1], [1, 0, 1], [1, 1, 0]] 3)
              ([[0, 1, 1], [1, 0, 1], [1, 1, 0]], sconst (2 / 5))
        = length (getAllEdges [[0, 1, 1], [1, 0, 1], [1, 1, 0]] 3) \<and>
        length (nw_edges \<lparr>nw_adjacency = a, nw_edges = getAllEdges a 3, nw_type = ''small-world''\<rparr>)
        \<le> length (getAllEdges [[0, 1, 1], [1, 0, 1], [1, 1, 0]] 3)"
    using C2_rewiring_edge_count[OF v ringLattice_3_2 c] .
  then have "length (nw_edges \<lparr>nw_adjacency = a, nw_edges = getAllEdges a 3, nw_type = ''small-world''\<rparr>)
          + dropped 3 (1 / 2) [(0, 1), (0, 2), (1, 2)]
              ([[0, 1, 1], [1, 0, 1], [1, 1, 0]], sconst (2 / 5)) = 3 \<and>
        length (nw_edges \<lparr>nw_adjacency = a, nw_edges = getAllEdges a 3, nw_type = ''small-world''\<rparr>) \<le> 3"
    unfolding edges_3 by (simp only: list.size length_Cons One_nat_def) simp
  then show ?thesis using c by blast
qed

lemma fold_invariant:
  assumes "\<And>x s. P s \<Longrightarrow> P (f x s)" "P s"
  shows "P (fold f xs s)"
  using assms(2) by (induction xs arbitrary: s) (simp_all add: assms(1))

lemma createRing_symmetric: "symmetricMatrix n (nw_adjacency (createRing n k))"
proof -
  have inner: "\<And>i a. symmetricMatrix n a \<Longrightarrow>
      symmetricMatrix n (fold (\<lambda>j a. (let neighbor = (i + j) mod n
                                        in set2 (set2 a i neighbor 1) neighbor i 1)) [1..<k + 1] a)"
    by (rule fold_invariant) (simp_all only: Let_def pair_set_symmetric)
  have "symmetricMatrix n (fold (\<lambda>i a. fold (\<lambda>j a. (let neighbor = (i + j) mod n
                                         in set2 (set2 a i neighbor 1) neighbor i 1))
                              [1..<k + 1] a) [0..<n] (zeros n))"
    by (rule fold_invariant, rule inner, assumption, rule zeros_symmetric)
  then show ?thesis by (simp only: createRing_def Let_def network.simps)
qed

lemma randomRow_symmetric:
  "symmetricMatrix n a \<Longrightarrow> symmetricMatrix n (fst (randomRow i p js a g))"
  by (induction js arbitrary: a g) (simp_all add: pair_set_symmetric split: prod.splits)

lemma randomRows_symmetric:
  "symmetricMatrix n a \<Longrightarrow> symmetricMatrix n (fst (randomRows n p is a g))"
proof (induction "is" arbitrary: a g)
  case Nil
  then show ?case by simp
next
  case (Cons i "is")
  obtain a1 g1 where r: "randomRow i p [i + 1..<n] a g = (a1, g1)"
    by (cases "randomRow i p [i + 1..<n] a g")
  have "symmetricMatrix n a1" using randomRow_symmetric[OF Cons.prems, of i p "[i + 1..<n]" g] r by simp
  then show ?case using Cons.IH[of a1 g1] r by simp
qed

lemma createRandom_symmetric: "symmetricMatrix n (nw_adjacency (fst (createRandom n p g)))"
proof -
  obtain a g1 where r: "randomRows n p [0..<n] (zeros n) g = (a, g1)"
    by (cases "randomRows n p [0..<n] (zeros n) g")
  have "symmetricMatrix n a"
    using randomRows_symmetric[OF zeros_symmetric, of n p "[0..<n]" g] r by simp
  then show ?thesis by (simp add: createRandom_def r)
qed

lemma seedGraph_symmetric: "symmetricMatrix n a \<Longrightarrow> symmetricMatrix n (seedGraph m0 a)"
proof -
  assume s: "symmetricMatrix n a"
  have inner: "\<And>i a. symmetricMatrix n a \<Longrightarrow>
      symmetricMatrix n (fold (\<lambda>j a. set2 (set2 a i j 1) j i 1) [i + 1..<m0] a)"
    by (rule fold_invariant) (simp_all only: pair_set_symmetric)
  show ?thesis unfolding seedGraph_def
    by (rule fold_invariant, rule inner, assumption, rule s)
qed

lemma growLoop_symmetric:
  "symmetricMatrix n a \<Longrightarrow> growLoop m is a g = Some (a', g') \<Longrightarrow> symmetricMatrix n a'"
proof (induction "is" arbitrary: a g)
  case Nil
  then show ?case by simp
next
  case (Cons i "is")
  from Cons.prems(2) obtain targets g1 where
    r: "growLoop m is (fold (\<lambda>target a. set2 (set2 a i target 1) target i 1) targets a) g1 = Some (a', g')"
    by (auto simp: Let_def split: option.splits)
  have "symmetricMatrix n (fold (\<lambda>target a. set2 (set2 a i target 1) target i 1) targets a)"
    by (rule fold_invariant) (simp_all add: pair_set_symmetric Cons.prems(1))
  then show ?case using Cons.IH r by blast
qed

lemma createScaleFree_symmetric:
  "createScaleFree n m g = Some (nw, g') \<Longrightarrow> symmetricMatrix n (nw_adjacency nw)"
  using growLoop_symmetric[OF seedGraph_symmetric[OF zeros_symmetric]]
  by (auto simp: createScaleFree_def Let_def split: option.splits)

lemma upt_0_2: "[0..<2] = [0, 1]"
  by (simp add: eval_nat_numeral)

lemma upt_1_3: "[1..<2 + 1] = [1, 2]"
  by (simp add: eval_nat_numeral)

text \<open>C8 at \<open>createRing(2, 2)\<close>: the offset \<open>j = 2\<close> wraps each node onto itself, and both
  diagonal entries of the returned matrix are 1.\<close>

theorem C8_ring_self_loops:
  "nw_adjacency (createRing 2 2) = [[1, 1], [1, 1]]"
  unfolding createRing_def zeros_2 upt_0_2 upt_1_3
  by (simp add: set2_def Let_def)

text \<open>The self-loops of \<open>createRing\<close> are confined to \<open>k \<ge> N\<close>: below that the diagonal
  stays zero.\<close>

lemma fold_invariant_mem:
  assumes "\<And>x s. x \<in> set xs \<Longrightarrow> P s \<Longrightarrow> P (f x s)" "P s"
  shows "P (fold f xs s)"
  using assms by (induction xs arbitrary: s) simp_all

lemma ring_offset_moves:
  fixes i j n :: nat
  assumes "i < n" "0 < j" "j < n"
  shows "(i + j) mod n \<noteq> i"
proof (cases "i + j < n")
  case True
  then have "(i + j) mod n = i + j" by (rule mod_less)
  then show ?thesis using assms by linarith
next
  case False
  then have "n \<le> i + j" "i + j - n < n" using assms by linarith+
  then have "(i + j) mod n = i + j - n" by (simp add: le_mod_geq)
  then show ?thesis using assms False by linarith
qed

lemma createRing_no_self_loop:
  assumes "k < n" "p < n"
  shows "nw_adjacency (createRing n k) ! p ! p = 0"
proof -
  let ?P = "\<lambda>a. symmetricMatrix n a \<and> a ! p ! p = 0"
  have inner: "\<And>i a. i \<in> set [0..<n] \<Longrightarrow> ?P a \<Longrightarrow>
      ?P (fold (\<lambda>j a. (let neighbor = (i + j) mod n
                        in set2 (set2 a i neighbor 1) neighbor i 1)) [1..<k + 1] a)"
  proof -
    fix i a
    assume i: "i \<in> set [0..<n]" and a: "?P a"
    show "?P (fold (\<lambda>j a. (let neighbor = (i + j) mod n
                        in set2 (set2 a i neighbor 1) neighbor i 1)) [1..<k + 1] a)"
    proof (rule fold_invariant_mem[where P = ?P])
      fix j s
      assume j: "j \<in> set [1..<k + 1]" and s: "?P s"
      have ne: "(i + j) mod n \<noteq> i" using i j assms(1) by (intro ring_offset_moves) auto
      have "set2 (set2 s i ((i + j) mod n) 1) ((i + j) mod n) i 1 ! p ! p = s ! p ! p"
        using pair_set_nth[of n s p p i "(i + j) mod n" 1] s assms(2) ne by auto
      then show "?P (let neighbor = (i + j) mod n in set2 (set2 s i neighbor 1) neighbor i 1)"
        using s by (simp add: Let_def pair_set_symmetric)
    qed (rule a)
  qed
  have "?P (fold (\<lambda>i a. fold (\<lambda>j a. (let neighbor = (i + j) mod n
                                         in set2 (set2 a i neighbor 1) neighbor i 1))
                              [1..<k + 1] a) [0..<n] (zeros n))"
  proof (rule fold_invariant_mem[where P = ?P])
    have "zeros n ! p ! p = 0" using assms(2) by (simp add: zeros_def)
    then show "?P (zeros n)" using zeros_symmetric by blast
  qed (rule inner)
  then show ?thesis by (simp only: createRing_def Let_def network.simps)
qed

end
